theory Spec2Isabelle
  imports Complex_Main
begin

section \<open>Checkout engine of the POS backend\<close>

text \<open>
  The backend (the Express application found in \<^verbatim>\<open>src/backend/prisma/seed.ts\<close>, from
  \<^verbatim>\<open>import express\<close> on) keeps the carts in a process-wide dictionary and talks to the
  database through Prisma. The embedding below follows the handlers one by one.

  Conventions of the embedding.
  \<^item> A JavaScript number that holds a currency amount, a quantity or a rate is a rational
    (\<^typ>\<open>rat\<close>): such a number is finite, arithmetic on it is exact, and the binary
    rounding of IEEE doubles is not modelled. The model and the code agree on a
    computation whose operands and results are all held exactly by a double
    (\<open>exactDouble\<close> below); elsewhere the code has the nearest double.
  \<^item> A line index is the value of \<^verbatim>\<open>Number(lineIndex)\<close>, a \<open>jsnum\<close>, because the
    handlers behave differently on \<^verbatim>\<open>NaN\<close> and on fractions.
  \<^item> An optional field of a request body is an \<^typ>\<open>'a option\<close>; \<open>None\<close> is a field that
    is absent (\<^verbatim>\<open>undefined\<close>) or \<^verbatim>\<open>null\<close>, wherever the handler treats the two alike.
    It does not for \<^verbatim>\<open>qty\<close>, which has a type of its own.
  \<^item> Every handler returns its response together with the state it leaves behind. A
    response is \<open>Inl e\<close> for an error status and \<open>Inr v\<close> for the JSON body \<open>v\<close>.
  \<^item> A database call may throw where the handler catches it: the writes of the
    settlement, given by a \<open>Faults\<close> record, and the tax read of \<^verbatim>\<open>updateLine\<close>, given
    by a flag. Every other database read is a lookup in a table and answers.
\<close>

subsection \<open>Numbers and arrays of JavaScript\<close>

datatype jsnum = Fin rat | NaN | PosInf | NegInf

text \<open>The comparisons \<^verbatim>\<open>idx < 0\<close> and \<^verbatim>\<open>idx >= n\<close>: both are false on \<^verbatim>\<open>NaN\<close>.\<close>

fun js_lt_zero :: "jsnum \<Rightarrow> bool" where
  "js_lt_zero (Fin r) = (r < 0)"
| "js_lt_zero NaN = False"
| "js_lt_zero PosInf = False"
| "js_lt_zero NegInf = True"

fun js_ge_nat :: "jsnum \<Rightarrow> nat \<Rightarrow> bool" where
  "js_ge_nat (Fin r) n = (of_nat n \<le> r)"
| "js_ge_nat NaN n = False"
| "js_ge_nat PosInf n = True"
| "js_ge_nat NegInf n = False"

text \<open>Truncation towards zero, as \<^verbatim>\<open>ToIntegerOrInfinity\<close> does on a finite number.\<close>

definition truncate_rat :: "rat \<Rightarrow> int" where
  "truncate_rat r = (if 0 \<le> r then \<lfloor>r\<rfloor> else \<lceil>r\<rceil>)"

text \<open>
  \<^verbatim>\<open>Array.prototype.splice(start, 1)\<close>: the start is converted with
  \<^verbatim>\<open>ToIntegerOrInfinity\<close> (\<^verbatim>\<open>NaN\<close> becomes 0), a negative start counts from the end, and
  the result is clamped to the length; then at most one element is removed there.
\<close>

fun spliceStart :: "jsnum \<Rightarrow> nat \<Rightarrow> nat" where
  "spliceStart NaN len = 0"
| "spliceStart NegInf len = 0"
| "spliceStart PosInf len = len"
| "spliceStart (Fin r) len =
     (let k = truncate_rat r
      in if k < 0 then nat (max (int len + k) 0) else min (nat k) len)"

definition splice1 :: "'a list \<Rightarrow> jsnum \<Rightarrow> 'a list" where
  "splice1 xs start = (let a = spliceStart start (length xs) in take a xs @ drop (Suc a) xs)"

text \<open>
  \<^verbatim>\<open>xs[idx]\<close> with a number as key: an element exists only for an integer inside the
  array; every other key (\<^verbatim>\<open>NaN\<close>, a fraction, a negative number) reads \<^verbatim>\<open>undefined\<close>.
\<close>

fun arrayIndex :: "'a list \<Rightarrow> jsnum \<Rightarrow> nat option" where
  "arrayIndex xs (Fin r) =
     (if of_int \<lfloor>r\<rfloor> = r \<and> 0 \<le> r \<and> r < of_nat (length xs) then Some (nat \<lfloor>r\<rfloor>) else None)"
| "arrayIndex xs NaN = None"
| "arrayIndex xs PosInf = None"
| "arrayIndex xs NegInf = None"

text \<open>\<^verbatim>\<open>x || 0\<close> on a number.\<close>

definition orZero :: "rat \<Rightarrow> rat" where
  "orZero x = (if x = 0 then 0 else x)"

text \<open>\<^verbatim>\<open>toNum\<close>: \<^verbatim>\<open>null\<close> and \<^verbatim>\<open>undefined\<close> are 0.\<close>

definition toNum :: "rat option \<Rightarrow> rat" where
  "toNum v = (case v of None \<Rightarrow> 0 | Some x \<Rightarrow> x)"

text \<open>Truthiness of an optional string and of an optional identifier.\<close>

definition truthyStr :: "string option \<Rightarrow> bool" where
  "truthyStr s = (case s of None \<Rightarrow> False | Some t \<Rightarrow> t \<noteq> [])"

definition truthyId :: "int option \<Rightarrow> bool" where
  "truthyId i = (case i of None \<Rightarrow> False | Some k \<Rightarrow> k \<noteq> 0)"

subsection \<open>Data model\<close>

record CartLine =
  itemId :: int
  quantity :: rat
  unitPrice :: rat
  discount :: rat
  taxRateId :: "int option"
  taxAmount :: rat
  lineTotal :: rat
  name :: string

record Cart =
  cart_id :: string
  lines :: "CartLine list"

record Item =
  item_id :: int
  item_name :: string
  mrp :: rat
  taxId :: "int option"

record Tax =
  rate :: rat
  cess :: rat

record PaymentMethod =
  pm_id :: int
  pm_code :: "string option"
  pm_name :: string

text \<open>
  One element of the \<^verbatim>\<open>payments\<close> array of a request; \<open>method_t\<close> is its field
  \<^verbatim>\<open>method\<close>.
\<close>

record Tender =
  method_t :: "string option"
  amount :: "rat option"
  reference :: "string option"

record Payment =
  pay_amount :: rat
  pay_reference :: "string option"
  pay_status :: string
  pay_methodId :: int

record ReceiptLine =
  rl_itemId :: int
  rl_quantity :: rat
  rl_unitPrice :: rat
  rl_discount :: rat
  rl_taxAmount :: rat
  rl_lineTotal :: rat
  rl_taxRateId :: "int option"

record Receipt =
  receiptNumber :: string
  date :: int
  customerId :: "int option"
  totalBeforeDiscount :: rat
  totalDiscount :: rat
  totalTax :: rat
  totalAmount :: rat
  cgst :: rat
  sgst :: rat
  igst :: rat
  receipt_cess :: rat
  status :: string
  receipt_lines :: "ReceiptLine list"
  payments :: "Payment list"

record StockLedger =
  sl_itemId :: int
  sl_quantity :: rat
  sl_unitCost :: rat
  sl_type :: string
  sl_reference :: string

text \<open>
  The state: the dictionary \<^verbatim>\<open>carts\<close> and the tables of the database that the checkout
  handlers read or write.
\<close>

record State =
  carts :: "string \<rightharpoonup> Cart"
  items :: "int \<rightharpoonup> Item"
  barcodes :: "string \<rightharpoonup> int"
  taxes :: "int \<rightharpoonup> Tax"
  paymentMethods :: "PaymentMethod list"
  receipts :: "Receipt list"
  stockLedger :: "StockLedger list"

text \<open>
  The error answers: the four messages of the handlers, and \<open>PersistenceFailed\<close> for the
  status 400 with which a \<^verbatim>\<open>catch\<close> block answers a database call that threw.
\<close>

datatype error = CartNotFound | ItemNotFound | LineNotFound | EmptyCart | PersistenceFailed

subsection \<open>Cart handlers\<close>

text \<open>\<^verbatim>\<open>POST /api/checkout/start\<close>; the fresh identifier is the value of \<^verbatim>\<open>uuid()\<close>.\<close>

definition start :: "State \<Rightarrow> string \<Rightarrow> (error + Cart) \<times> State" where
  "start st newId =
     (let cart = \<lparr>cart_id = newId, lines = []\<rparr>
      in (Inr cart, st\<lparr>carts := (carts st)(newId \<mapsto> cart)\<rparr>))"

text \<open>The item of a request: by barcode when one is given, else by identifier.\<close>

definition locateItem :: "State \<Rightarrow> int option \<Rightarrow> string option \<Rightarrow> Item option" where
  "locateItem st iid barcode =
     (if truthyStr barcode then
        (case barcodes st (the barcode) of None \<Rightarrow> None | Some i \<Rightarrow> items st i)
      else if truthyId iid then items st (the iid)
      else None)"

text \<open>The tax of a new line: \<^verbatim>\<open>(taxRateId, taxAmount)\<close>.\<close>

definition addTax :: "State \<Rightarrow> Item \<Rightarrow> rat \<Rightarrow> rat \<Rightarrow> int option \<times> rat" where
  "addTax st item price qty =
     (if truthyId (taxId item) then
        (case taxes st (the (taxId item)) of
           None \<Rightarrow> (None, 0)
         | Some tax \<Rightarrow> (Some (the (taxId item)), (price * qty * rate tax) / 100))
      else (None, 0))"

text \<open>
  The field \<^verbatim>\<open>qty\<close> of a request. The default 1 of the destructuring stands in for an
  absent field only; \<^verbatim>\<open>null\<close> stays, and is 0 in the products and under \<^verbatim>\<open>Number\<close>.
\<close>

datatype qty_field = QtyAbsent | QtyNull | Qty rat

fun qtyNumber :: "qty_field \<Rightarrow> rat" where
  "qtyNumber QtyAbsent = 1"
| "qtyNumber QtyNull = 0"
| "qtyNumber (Qty q) = q"

text \<open>\<^verbatim>\<open>POST /api/checkout/add\<close>.\<close>

definition add :: "State \<Rightarrow> string \<Rightarrow> int option \<Rightarrow> string option \<Rightarrow> qty_field
    \<Rightarrow> (error + Cart) \<times> State" where
  "add st cartId iid barcode qtyField =
     (let qty = qtyNumber qtyField in
      case carts st cartId of
        None \<Rightarrow> (Inl CartNotFound, st)
      | Some cart \<Rightarrow>
          (case locateItem st iid barcode of
             None \<Rightarrow> (Inl ItemNotFound, st)
           | Some item \<Rightarrow>
               (let price = mrp item;
                    tx = addTax st item price qty;
                    line = \<lparr>itemId = item_id item, quantity = qty, unitPrice = price,
                            discount = 0, taxRateId = fst tx, taxAmount = snd tx,
                            lineTotal = price * qty + snd tx, name = item_name item\<rparr>;
                    cart' = cart\<lparr>lines := lines cart @ [line]\<rparr>
                in (Inr cart', st\<lparr>carts := (carts st)(cartId \<mapsto> cart')\<rparr>))))"

text \<open>
  \<^verbatim>\<open>POST /api/checkout/discount\<close>: the function mapped over the lines, then the handler;
  \<^verbatim>\<open>discountPercent\<close> defaults to 0.
\<close>

definition discountLine :: "rat \<Rightarrow> CartLine \<Rightarrow> CartLine" where
  "discountLine pct l =
     (let d = (unitPrice l * quantity l) * (pct / 100);
          t = unitPrice l * quantity l - d + taxAmount l
      in l\<lparr>discount := d, lineTotal := t\<rparr>)"

definition applyDiscount :: "State \<Rightarrow> string \<Rightarrow> rat option \<Rightarrow> (error + Cart) \<times> State" where
  "applyDiscount st cartId pctOpt =
     (let pct = (case pctOpt of None \<Rightarrow> 0 | Some p \<Rightarrow> p) in
      case carts st cartId of
        None \<Rightarrow> (Inl CartNotFound, st)
      | Some cart \<Rightarrow>
          (let cart' = cart\<lparr>lines := map (discountLine pct) (lines cart)\<rparr>
           in (Inr cart', st\<lparr>carts := (carts st)(cartId \<mapsto> cart')\<rparr>)))"

text \<open>
  \<^verbatim>\<open>POST /api/checkout/updateLine\<close>. The fields given are written into the line of the
  cart (\<open>writeFields\<close>); then the rate of the line's \<^verbatim>\<open>taxRateId\<close> is read, and tax and
  total are computed again and written too (\<open>repriceLine\<close> is both steps). The read is
  made only for a line with a tax rate. When it throws, the handler's \<^verbatim>\<open>catch\<close> answers
  with status 400, and the line keeps the fields just written next to its old tax and
  total. A quantity that is zero or negative removes the line before anything is written
  or read.
\<close>

definition taxRatePct :: "State \<Rightarrow> CartLine \<Rightarrow> rat" where
  "taxRatePct st l =
     (if truthyId (taxRateId l) then
        (case taxes st (the (taxRateId l)) of None \<Rightarrow> 0 | Some tx \<Rightarrow> rate tx)
      else 0)"

definition writeFields :: "rat option \<Rightarrow> rat option \<Rightarrow> rat option \<Rightarrow> CartLine \<Rightarrow> CartLine" where
  "writeFields q p d l0 =
     (let l1 = (case q of None \<Rightarrow> l0 | Some v \<Rightarrow> l0\<lparr>quantity := v\<rparr>);
          l2 = (case p of None \<Rightarrow> l1 | Some v \<Rightarrow> l1\<lparr>unitPrice := v\<rparr>)
      in (case d of None \<Rightarrow> l2 | Some v \<Rightarrow> l2\<lparr>discount := v\<rparr>))"

definition repriceLine :: "State \<Rightarrow> rat option \<Rightarrow> rat option \<Rightarrow> rat option \<Rightarrow> CartLine \<Rightarrow> CartLine" where
  "repriceLine st q p d l0 =
     (let l3 = writeFields q p d l0;
          pct = taxRatePct st l3;
          base = unitPrice l3 * quantity l3;
          tax = (base - orZero (discount l3)) * (pct / 100)
      in l3\<lparr>taxAmount := tax, lineTotal := base - orZero (discount l3) + tax\<rparr>)"

definition removesLine :: "rat option \<Rightarrow> bool" where
  "removesLine q = (case q of None \<Rightarrow> False | Some v \<Rightarrow> v \<le> 0)"

definition updateLine :: "bool \<Rightarrow> State \<Rightarrow> string \<Rightarrow> jsnum \<Rightarrow> rat option \<Rightarrow> rat option
    \<Rightarrow> rat option \<Rightarrow> (error + Cart) \<times> State" where
  "updateLine taxReadThrows st cartId idx q p d =
     (case carts st cartId of
        None \<Rightarrow> (Inl CartNotFound, st)
      | Some cart \<Rightarrow>
          (case arrayIndex (lines cart) idx of
             None \<Rightarrow> (Inl LineNotFound, st)
           | Some i \<Rightarrow>
               (if removesLine q then
                  (let cart' = cart\<lparr>lines := splice1 (lines cart) idx\<rparr>
                   in (Inr cart', st\<lparr>carts := (carts st)(cartId \<mapsto> cart')\<rparr>))
                else if truthyId (taxRateId (lines cart ! i)) \<and> taxReadThrows then
                  (let cart' = cart\<lparr>lines := (lines cart)[i := writeFields q p d (lines cart ! i)]\<rparr>
                   in (Inl PersistenceFailed, st\<lparr>carts := (carts st)(cartId \<mapsto> cart')\<rparr>))
                else
                  (let cart' = cart\<lparr>lines := (lines cart)[i := repriceLine st q p d (lines cart ! i)]\<rparr>
                   in (Inr cart', st\<lparr>carts := (carts st)(cartId \<mapsto> cart')\<rparr>)))))"

text \<open>\<^verbatim>\<open>POST /api/checkout/removeLine\<close>.\<close>

definition removeLine :: "State \<Rightarrow> string \<Rightarrow> jsnum \<Rightarrow> (error + Cart) \<times> State" where
  "removeLine st cartId idx =
     (case carts st cartId of
        None \<Rightarrow> (Inl CartNotFound, st)
      | Some cart \<Rightarrow>
          (if js_lt_zero idx \<or> js_ge_nat idx (length (lines cart)) then (Inl LineNotFound, st)
           else
             (let cart' = cart\<lparr>lines := splice1 (lines cart) idx\<rparr>
              in (Inr cart', st\<lparr>carts := (carts st)(cartId \<mapsto> cart')\<rparr>))))"

subsection \<open>Settlement\<close>

text \<open>
  What the handler takes from its surroundings: the clock (\<^verbatim>\<open>Date.now()\<close>, which
  also stands for \<^verbatim>\<open>new Date()\<close>) and \<^verbatim>\<open>Math.floor(Math.random() * 1000)\<close>, both
  integers that are not negative.
\<close>

record Env =
  now :: int
  random1000 :: int

text \<open>
  Which database writes of a settlement throw. The payment-method creations are indexed
  by the position of the tender in the request, the stock entries by the position of the
  line in the cart.
\<close>

record Faults =
  methodCreateFails :: "nat \<Rightarrow> bool"
  methodCreateByNameFails :: "nat \<Rightarrow> bool"
  receiptCreateFails :: bool
  stockCreateFails :: "nat \<Rightarrow> bool"

definition noFaults :: Faults where
  "noFaults = \<lparr>methodCreateFails = (\<lambda>_. False), methodCreateByNameFails = (\<lambda>_. False),
               receiptCreateFails = False, stockCreateFails = (\<lambda>_. False)\<rparr>"

text \<open>The decimal digits of a number that is not negative, as a template literal prints it.\<close>

function showInt :: "int \<Rightarrow> string" where
  "showInt n =
     (if n < 10 then [char_of (48 + n)] else showInt (n div 10) @ [char_of (48 + n mod 10)])"
  by pat_completeness auto
termination
  by (relation "measure nat") auto

declare showInt.simps [simp del]

definition mkReceiptNumber :: "Env \<Rightarrow> string" where
  "mkReceiptNumber env = ''R'' @ showInt (now env) @ showInt (random1000 env)"

text \<open>\<^verbatim>\<open>toUpperCase\<close> on the letters a to z.\<close>

definition toUpperChar :: "char \<Rightarrow> char" where
  "toUpperChar c =
     (if (97::nat) \<le> of_char c \<and> of_char c \<le> (122::nat) then char_of (of_char c - (32::nat))
      else c)"

definition toUpperCase :: "string \<Rightarrow> string" where
  "toUpperCase s = map toUpperChar s"

text \<open>\<^verbatim>\<open>String(p.method || '').toUpperCase() || 'CASH'\<close>\<close>

definition methodName :: "Tender \<Rightarrow> string" where
  "methodName p =
     (let u = toUpperCase (case method_t p of None \<Rightarrow> [] | Some m \<Rightarrow> m)
      in if u = [] then ''CASH'' else u)"

text \<open>\<^verbatim>\<open>findFirst\<close> on the code or the name of a payment method.\<close>

definition findMethod :: "PaymentMethod list \<Rightarrow> string \<Rightarrow> PaymentMethod option" where
  "findMethod pms m = find (\<lambda>pm. pm_code pm = Some m \<or> pm_name pm = m) pms"

text \<open>The identifier the database gives to a new payment method.\<close>

definition nextMethodId :: "PaymentMethod list \<Rightarrow> int" where
  "nextMethodId pms = fold max (map pm_id pms) 0 + 1"

text \<open>
  The method of tender number \<open>i\<close>: the one found, else one created with the code, else
  (when that creation throws) one created with the name alone. The result is the table
  afterwards and the method, \<open>None\<close> when the last creation throws too.
\<close>

definition ensureMethod :: "Faults \<Rightarrow> nat \<Rightarrow> PaymentMethod list \<Rightarrow> string
    \<Rightarrow> PaymentMethod list \<times> PaymentMethod option" where
  "ensureMethod F i pms m =
     (case findMethod pms m of
        Some pm \<Rightarrow> (pms, Some pm)
      | None \<Rightarrow>
          (if \<not> methodCreateFails F i then
             (let pm = \<lparr>pm_id = nextMethodId pms, pm_code = Some m, pm_name = m\<rparr>
              in (pms @ [pm], Some pm))
           else if \<not> methodCreateByNameFails F i then
             (let pm = \<lparr>pm_id = nextMethodId pms, pm_code = None, pm_name = m\<rparr>
              in (pms @ [pm], Some pm))
           else (pms, None)))"

definition mkPayment :: "Tender \<Rightarrow> PaymentMethod \<Rightarrow> Payment" where
  "mkPayment p pm =
     \<lparr>pay_amount = toNum (amount p),
      pay_reference = (if truthyStr (reference p) then reference p else None),
      pay_status = ''SUCCESS'',
      pay_methodId = pm_id pm\<rparr>"

text \<open>The loop that fills \<^verbatim>\<open>createPayments\<close>; \<open>None\<close> when it throws.\<close>

fun createPayments :: "Faults \<Rightarrow> nat \<Rightarrow> PaymentMethod list \<Rightarrow> Tender list \<Rightarrow> Payment list
    \<Rightarrow> PaymentMethod list \<times> Payment list option" where
  "createPayments F i pms [] acc = (pms, Some acc)"
| "createPayments F i pms (p # ps) acc =
     (case ensureMethod F i pms (methodName p) of
        (pms', None) \<Rightarrow> (pms', None)
      | (pms', Some pm) \<Rightarrow> createPayments F (Suc i) pms' ps (acc @ [mkPayment p pm]))"

text \<open>The four totals of the handler, each a \<^verbatim>\<open>reduce\<close> from 0.\<close>

definition cartTotalBeforeDiscount :: "CartLine list \<Rightarrow> rat" where
  "cartTotalBeforeDiscount ls = foldl (\<lambda>s l. s + unitPrice l * quantity l) 0 ls"

definition cartTotalDiscount :: "CartLine list \<Rightarrow> rat" where
  "cartTotalDiscount ls = foldl (\<lambda>s l. s + discount l) 0 ls"

definition cartTotalTax :: "CartLine list \<Rightarrow> rat" where
  "cartTotalTax ls = foldl (\<lambda>s l. s + taxAmount l) 0 ls"

definition cartTotalAmount :: "CartLine list \<Rightarrow> rat" where
  "cartTotalAmount ls = foldl (\<lambda>s l. s + lineTotal l) 0 ls"

definition toReceiptLine :: "CartLine \<Rightarrow> ReceiptLine" where
  "toReceiptLine l =
     \<lparr>rl_itemId = itemId l, rl_quantity = quantity l, rl_unitPrice = unitPrice l,
      rl_discount = discount l, rl_taxAmount = taxAmount l, rl_lineTotal = lineTotal l,
      rl_taxRateId = taxRateId l\<rparr>"

definition mkReceipt :: "Env \<Rightarrow> Cart \<Rightarrow> int option \<Rightarrow> Payment list \<Rightarrow> Receipt" where
  "mkReceipt env cart cust cps =
     \<lparr>receiptNumber = mkReceiptNumber env,
      date = now env,
      customerId = cust,
      totalBeforeDiscount = cartTotalBeforeDiscount (lines cart),
      totalDiscount = cartTotalDiscount (lines cart),
      totalTax = cartTotalTax (lines cart),
      totalAmount = cartTotalAmount (lines cart),
      cgst = cartTotalTax (lines cart) / 2,
      sgst = cartTotalTax (lines cart) / 2,
      igst = 0,
      receipt_cess = 0,
      status = ''COMPLETED'',
      receipt_lines = map toReceiptLine (lines cart),
      payments = cps\<rparr>"

definition stockEntry :: "string \<Rightarrow> CartLine \<Rightarrow> StockLedger" where
  "stockEntry ref l =
     \<lparr>sl_itemId = itemId l, sl_quantity = - \<bar>quantity l\<bar>, sl_unitCost = 0,
      sl_type = ''SALE'', sl_reference = ref\<rparr>"

text \<open>
  The stock-ledger loop, from line number \<open>i\<close> on: the ledger afterwards, and whether
  the loop ran to its end.
\<close>

fun stockLoop :: "(nat \<Rightarrow> bool) \<Rightarrow> string \<Rightarrow> nat \<Rightarrow> CartLine list \<Rightarrow> StockLedger list
    \<Rightarrow> StockLedger list \<times> bool" where
  "stockLoop fails ref i [] sl = (sl, True)"
| "stockLoop fails ref i (l # ls) sl =
     (if fails i then (sl, False) else stockLoop fails ref (Suc i) ls (sl @ [stockEntry ref l]))"

text \<open>
  \<^verbatim>\<open>POST /api/checkout/complete\<close>. The receipt, its lines and its payments are one nested
  \<^verbatim>\<open>create\<close>, which either stores all of them or throws; each stock entry is a
  \<^verbatim>\<open>create\<close> of its own. Whatever throws inside the \<^verbatim>\<open>try\<close> block ends in the
  \<^verbatim>\<open>catch\<close>, which answers with status 400 and undoes nothing.
\<close>

definition complete :: "Env \<Rightarrow> Faults \<Rightarrow> State \<Rightarrow> string \<Rightarrow> Tender list \<Rightarrow> int option
    \<Rightarrow> (error + Receipt) \<times> State" where
  "complete env F st cartId pays cust =
     (case carts st cartId of
        None \<Rightarrow> (Inl CartNotFound, st)
      | Some cart \<Rightarrow>
          (if lines cart = [] then (Inl EmptyCart, st)
           else
             (case createPayments F 0 (paymentMethods st) pays [] of
                (pms, None) \<Rightarrow> (Inl PersistenceFailed, st\<lparr>paymentMethods := pms\<rparr>)
              | (pms, Some cps) \<Rightarrow>
                  (if receiptCreateFails F then
                     (Inl PersistenceFailed, st\<lparr>paymentMethods := pms\<rparr>)
                   else
                     (let receipt = mkReceipt env cart cust cps;
                          st1 = st\<lparr>paymentMethods := pms, receipts := receipts st @ [receipt]\<rparr>
                      in case stockLoop (stockCreateFails F) (receiptNumber receipt) 0
                                (lines cart) (stockLedger st1) of
                           (sl, False) \<Rightarrow> (Inl PersistenceFailed, st1\<lparr>stockLedger := sl\<rparr>)
                         | (sl, True) \<Rightarrow>
                             (Inr receipt,
                              st1\<lparr>stockLedger := sl, carts := (carts st)(cartId := None)\<rparr>))))))"

text \<open>
  The cashier page (\<^verbatim>\<open>Cashier.tsx\<close>) is the only place that adds the tenders up:
  \<^verbatim>\<open>paidTotal\<close>.
\<close>

definition paidTotal :: "Tender list \<Rightarrow> rat" where
  "paidTotal ts = foldl (\<lambda>s t. s + toNum (amount t)) 0 ts"

subsection \<open>Properties of lines and of fault records\<close>

text \<open>The line invariant: the total is the discounted base plus the tax.\<close>

definition lineInv :: "CartLine \<Rightarrow> bool" where
  "lineInv l = (lineTotal l = (unitPrice l * quantity l - discount l) + taxAmount l)"

definition cartsInv :: "State \<Rightarrow> bool" where
  "cartsInv st = (\<forall>cid c. carts st cid = Some c \<longrightarrow> list_all lineInv (lines c))"


text \<open>
  No write of a settlement with \<open>n\<close> tenders and \<open>m\<close> lines throws for good: for
  every tender one of the two payment-method creations works, the receipt creation works,
  and so does the creation of each stock entry.
\<close>

definition writesSucceed :: "Faults \<Rightarrow> nat \<Rightarrow> nat \<Rightarrow> bool" where
  "writesSucceed F n m =
     ((\<forall>i\<in>{0..<n}. \<not> (methodCreateFails F i \<and> methodCreateByNameFails F i))
      \<and> \<not> receiptCreateFails F
      \<and> (\<forall>i\<in>{0..<m}. \<not> stockCreateFails F i))"

text \<open>
  What a stored payment \<open>c\<close> has to do with the tender \<open>p\<close> it was made from, given the
  table of payment methods: the amount is the tender's, as it came, the status is
  \<^verbatim>\<open>SUCCESS\<close>, and the payment points to the method that the table holds for the
  tender's method name.
\<close>

definition recorded :: "PaymentMethod list \<Rightarrow> Tender \<Rightarrow> Payment \<Rightarrow> bool" where
  "recorded pms p c =
     (pay_amount c = toNum (amount p) \<and> pay_status c = ''SUCCESS''
      \<and> (case findMethod pms (methodName p) of
            None \<Rightarrow> False
          | Some pm \<Rightarrow> pay_methodId c = pm_id pm))"

text \<open>What a stock entry \<open>e\<close> has to do with the line \<open>l\<close> of a sale with receipt \<open>ref\<close>.\<close>

definition posted :: "string \<Rightarrow> CartLine \<Rightarrow> StockLedger \<Rightarrow> bool" where
  "posted ref l e =
     (sl_itemId e = itemId l \<and> sl_quantity e = - \<bar>quantity l\<bar> \<and> sl_type e = ''SALE''
      \<and> sl_reference e = ref)"

text \<open>
  The table of payment methods when the loop of the settlement reaches tender number
  \<open>j\<close>, and whether a write of a payment method throws for good in that loop: there is
  a tender whose method the table does not hold when the loop reaches it, and both
  creations throw for it.
\<close>

definition tableAt :: "Faults \<Rightarrow> State \<Rightarrow> Tender list \<Rightarrow> nat \<Rightarrow> PaymentMethod list" where
  "tableAt F st pays j = fst (createPayments F 0 (paymentMethods st) (take j pays) [])"

definition methodWriteThrows :: "Faults \<Rightarrow> State \<Rightarrow> Tender list \<Rightarrow> bool" where
  "methodWriteThrows F st pays =
     (\<exists>j\<in>{0..<length pays}.
        findMethod (tableAt F st pays j) (methodName (pays ! j)) = None
        \<and> methodCreateFails F j \<and> methodCreateByNameFails F j)"



subsection \<open>A shop and a sale\<close>

text \<open>
  The seeded shop, as far as the sale below needs it: the rice of the seed (price 120,
  GST 5\%), the tax rates and the six payment methods.
\<close>

definition rice :: Item where
  "rice = \<lparr>item_id = 1, item_name = ''Basmati Rice 1kg'', mrp = 120, taxId = Some 2\<rparr>"

definition seedMethods :: "PaymentMethod list" where
  "seedMethods =
     [\<lparr>pm_id = 1, pm_code = Some ''CASH'', pm_name = ''Cash''\<rparr>,
      \<lparr>pm_id = 2, pm_code = Some ''CARD'', pm_name = ''Card''\<rparr>,
      \<lparr>pm_id = 3, pm_code = Some ''UPI'', pm_name = ''UPI''\<rparr>,
      \<lparr>pm_id = 4, pm_code = Some ''WALLET'', pm_name = ''Wallet''\<rparr>,
      \<lparr>pm_id = 5, pm_code = Some ''GIFT_CARD'', pm_name = ''Gift Card''\<rparr>,
      \<lparr>pm_id = 6, pm_code = Some ''STORE_CREDIT'', pm_name = ''Store Credit''\<rparr>]"

definition shop :: State where
  "shop =
     \<lparr>carts = Map.empty,
      items = [1 \<mapsto> rice],
      barcodes = [''8900000000011'' \<mapsto> 1],
      taxes = [1 \<mapsto> \<lparr>rate = 0, cess = 0\<rparr>, 2 \<mapsto> \<lparr>rate = 5, cess = 0\<rparr>,
               3 \<mapsto> \<lparr>rate = 12, cess = 0\<rparr>],
      paymentMethods = seedMethods,
      receipts = [],
      stockLedger = []\<rparr>"

text \<open>A cart is started, the rice is scanned once, and 10\% are taken off the cart.\<close>

definition started :: State where
  "started = snd (start shop ''c1'')"

definition scanned :: State where
  "scanned = snd (add started ''c1'' None (Some ''8900000000011'') QtyAbsent)"

definition discounted :: State where
  "discounted = snd (applyDiscount scanned ''c1'' (Some 10))"

definition clock :: Env where
  "clock = \<lparr>now = 1700000000000, random1000 = 42\<rparr>"

definition tender :: "string \<Rightarrow> rat \<Rightarrow> Tender" where
  "tender m a = \<lparr>method_t = Some m, amount = Some a, reference = None\<rparr>"

text \<open>The first stock write throws, or the second; every other write works.\<close>

definition firstStockWriteFails :: Faults where
  "firstStockWriteFails = noFaults\<lparr>stockCreateFails := (\<lambda>i. i = 0)\<rparr>"

definition secondStockWriteFails :: Faults where
  "secondStockWriteFails = noFaults\<lparr>stockCreateFails := (\<lambda>i. i = 1)\<rparr>"

text \<open>The creation of the receipt throws, every other write works.\<close>

definition receiptWriteFails :: Faults where
  "receiptWriteFails = noFaults\<lparr>receiptCreateFails := True\<rparr>"

text \<open>The discounted cart after a second scan, of two packs of rice by item number.\<close>

definition twoLines :: State where
  "twoLines = snd (add discounted ''c1'' (Some 1) None (Qty 2))"



text \<open>A fresh cart after a scan with the quantity \<open>-2\<close>.\<close>

definition negativeScan :: State where
  "negativeScan = snd (add started ''c1'' (Some 1) None (Qty (- 2)))"

section \<open>Verification\<close>

subsection \<open>Arrays and the sale\<close>

lemma splice1_NaN: "splice1 xs NaN = tl xs"
  by (cases xs) (simp_all add: splice1_def)

lemma truncate_rat_of_nat: "truncate_rat (of_nat i) = int i"
  by (simp add: truncate_rat_def)

lemma splice1_index:
  "i < length xs \<Longrightarrow> splice1 xs (Fin (of_nat i)) = take i xs @ drop (Suc i) xs"
  by (simp add: splice1_def truncate_rat_of_nat Let_def)

lemma arrayIndex_of_nat: "i < length xs \<Longrightarrow> arrayIndex xs (Fin (of_nat i)) = Some i"
  by simp

lemma scanned_cart:
  "carts scanned ''c1'' =
     Some \<lparr>cart_id = ''c1'',
           lines = [\<lparr>itemId = 1, quantity = 1, unitPrice = 120, discount = 0,
                     taxRateId = Some 2, taxAmount = 6, lineTotal = 126,
                     name = ''Basmati Rice 1kg''\<rparr>]\<rparr>"
  by code_simp

lemma discounted_cart:
  "carts discounted ''c1'' =
     Some \<lparr>cart_id = ''c1'',
           lines = [\<lparr>itemId = 1, quantity = 1, unitPrice = 120, discount = 12,
                     taxRateId = Some 2, taxAmount = 6, lineTotal = 114,
                     name = ''Basmati Rice 1kg''\<rparr>]\<rparr>"
  by code_simp

subsection \<open>Removing and deleting lines\<close>

text \<open>
  Claim C10. On a cart with at least one line, \<^verbatim>\<open>removeLine\<close> with a line index that
  \<^verbatim>\<open>Number\<close> turns into \<^verbatim>\<open>NaN\<close> does not answer "Line not found": both comparisons of
  the bounds check are false on \<^verbatim>\<open>NaN\<close>, and \<^verbatim>\<open>splice\<close> reads \<^verbatim>\<open>NaN\<close> as 0, so the
  first line of the cart is removed.
\<close>

theorem removeLine_NaN_removes_first_line:
  assumes "carts st cid = Some cart" and "lines cart \<noteq> []"
  shows "removeLine st cid NaN =
           (Inr (cart\<lparr>lines := tl (lines cart)\<rparr>),
            st\<lparr>carts := (carts st)(cid \<mapsto> cart\<lparr>lines := tl (lines cart)\<rparr>)\<rparr>)"
  using assms by (simp add: removeLine_def splice1_NaN Let_def)

theorem removeLine_NaN_removes_first_line_witness:
  "fst (removeLine discounted ''c1'' NaN) = Inr \<lparr>cart_id = ''c1'', lines = []\<rparr>"
  using removeLine_NaN_removes_first_line [OF discounted_cart] by simp

text \<open>
  Claim C8. For a cart in the registry and a line index inside the cart, \<^verbatim>\<open>updateLine\<close>
  with a quantity that is zero or negative deletes that line, whether or not the database
  answers: the answer is the cart without it, and that cart is what the registry holds
  afterwards. When the cart had
  one line it has none afterwards, and a settlement of it answers "Cart empty" and
  changes nothing.
\<close>

theorem updateLine_nonpositive_quantity_deletes:
  assumes "carts st cid = Some cart" and "i < length (lines cart)" and "q \<le> 0"
  shows "fst (updateLine rf st cid (Fin (of_nat i)) (Some q) p d)
           = Inr (cart\<lparr>lines := take i (lines cart) @ drop (Suc i) (lines cart)\<rparr>)
         \<and> carts (snd (updateLine rf st cid (Fin (of_nat i)) (Some q) p d)) cid
           = Some (cart\<lparr>lines := take i (lines cart) @ drop (Suc i) (lines cart)\<rparr>)
         \<and> (length (lines cart) = 1 \<longrightarrow>
              take i (lines cart) @ drop (Suc i) (lines cart) = []
              \<and> complete env F (snd (updateLine rf st cid (Fin (of_nat i)) (Some q) p d)) cid pays cust
                  = (Inl EmptyCart, snd (updateLine rf st cid (Fin (of_nat i)) (Some q) p d)))"
proof -
  let ?c = "cart\<lparr>lines := take i (lines cart) @ drop (Suc i) (lines cart)\<rparr>"
  have A: "updateLine rf st cid (Fin (of_nat i)) (Some q) p d =
             (Inr ?c, st\<lparr>carts := (carts st)(cid \<mapsto> ?c)\<rparr>)"
    using assms
    by (simp add: updateLine_def removesLine_def splice1_index arrayIndex_of_nat Let_def
          del: arrayIndex.simps)
  have B: "take i (lines cart) @ drop (Suc i) (lines cart) = []" if "length (lines cart) = 1"
    using that assms(2) by simp
  have C: "complete env F (st\<lparr>carts := (carts st)(cid \<mapsto> ?c)\<rparr>) cid pays cust
             = (Inl EmptyCart, st\<lparr>carts := (carts st)(cid \<mapsto> ?c)\<rparr>)"
    if "length (lines cart) = 1"
    using B [OF that] by (simp add: complete_def)
  show ?thesis
    unfolding A using B C by simp
qed

theorem updateLine_nonpositive_quantity_deletes_witness:
  "fst (updateLine True discounted ''c1'' (Fin 0) (Some 0) None None)
     = Inr \<lparr>cart_id = ''c1'', lines = []\<rparr>
   \<and> fst (complete clock noFaults
            (snd (updateLine True discounted ''c1'' (Fin 0) (Some 0) None None)) ''c1''
            [tender ''CASH'' 114] None) = Inl EmptyCart"
  using updateLine_nonpositive_quantity_deletes
    [OF discounted_cart, of 0 0 True None None clock noFaults "[tender ''CASH'' 114]" None]
  by simp

subsection \<open>The line invariant\<close>

lemma lineInv_discountLine: "lineInv (discountLine pct l)"
  by (simp add: lineInv_def discountLine_def Let_def)

lemma lineInv_repriceLine: "lineInv (repriceLine st q p d l)"
  by (simp add: lineInv_def repriceLine_def writeFields_def Let_def orZero_def
      split: option.splits)

lemma list_all_splice1: "list_all P xs \<Longrightarrow> list_all P (splice1 xs k)"
  by (auto simp: splice1_def Let_def list_all_iff dest: in_set_takeD in_set_dropD)

lemma list_all_update: "list_all P xs \<Longrightarrow> P x \<Longrightarrow> list_all P (xs[i := x])"
  using set_update_subset_insert [of xs i x] by (auto simp: list_all_iff)

lemma cartsInv_add: "cartsInv st \<Longrightarrow> cartsInv (snd (add st cid iid bc qty))"
  by (auto simp: cartsInv_def add_def Let_def lineInv_def split: option.splits if_splits)

lemma cartsInv_applyDiscount: "cartsInv st \<Longrightarrow> cartsInv (snd (applyDiscount st cid pct))"
  by (auto simp: cartsInv_def applyDiscount_def Let_def list_all_iff lineInv_discountLine
      split: option.splits if_splits)

lemma cartsInv_updateLine:
  assumes "cartsInv st"
    and "fst (updateLine rf st cid idx q p d) \<noteq> Inl PersistenceFailed"
  shows "cartsInv (snd (updateLine rf st cid idx q p d))"
proof (cases "carts st cid")
  case None
  with assms show ?thesis by (simp add: updateLine_def)
next
  case (Some cart)
  have inv: "list_all lineInv (lines cart)"
    using assms(1) Some by (simp add: cartsInv_def)
  show ?thesis
  proof (cases "arrayIndex (lines cart) idx")
    case None
    with Some assms show ?thesis by (simp add: updateLine_def)
  next
    case (Some i)
    with \<open>carts st cid = Some cart\<close> assms inv show ?thesis
      by (auto simp: updateLine_def Let_def cartsInv_def list_all_splice1 list_all_update
            lineInv_repriceLine split: if_splits)
  qed
qed

lemma cartsInv_removeLine: "cartsInv st \<Longrightarrow> cartsInv (snd (removeLine st cid idx))"
  by (auto simp: cartsInv_def removeLine_def Let_def list_all_splice1
      split: option.splits if_splits)

lemma updateLine_failure:
  assumes "fst (updateLine rf st cid idx q p d) = Inl PersistenceFailed"
  shows "\<exists>cart i. carts st cid = Some cart \<and> arrayIndex (lines cart) idx = Some i
            \<and> rf \<and> \<not> removesLine q \<and> truthyId (taxRateId (lines cart ! i))
            \<and> snd (updateLine rf st cid idx q p d)
                = st\<lparr>carts := (carts st)
                       (cid \<mapsto> cart\<lparr>lines := (lines cart)[i := writeFields q p d (lines cart ! i)]\<rparr>)\<rparr>"
  using assms
  by (auto simp: updateLine_def Let_def split: option.splits if_splits)

theorem failed_tax_read_breaks_line_invariant_counterexample:
  "map_option (\<lambda>c. list_all lineInv (lines c)) (carts scanned ''c1'') = Some True
   \<and> fst (updateLine True scanned ''c1'' (Fin 0) (Some 3) None None) = Inl PersistenceFailed
   \<and> carts (snd (updateLine True scanned ''c1'' (Fin 0) (Some 3) None None)) ''c1'' =
       Some \<lparr>cart_id = ''c1'',
             lines = [\<lparr>itemId = 1, quantity = 3, unitPrice = 120, discount = 0,
                       taxRateId = Some 2, taxAmount = 6, lineTotal = 126,
                       name = ''Basmati Rice 1kg''\<rparr>]\<rparr>
   \<and> \<not> lineInv \<lparr>itemId = 1, quantity = 3, unitPrice = 120, discount = 0,
                  taxRateId = Some 2, taxAmount = 6, lineTotal = 126,
                  name = ''Basmati Rice 1kg''\<rparr>"
  by code_simp

text \<open>
  Claim C6, as the code has it. Adding a line, discounting the cart and removing a line
  keep the invariant \<open>lineTotal = (unitPrice * quantity - discount) + taxAmount\<close> on
  every line of every cart of the registry, whatever the request and the answer, and so
  does updating a line unless its tax read throws; that read does not throw unless the
  database does. When it throws, the handler answers with status 400, and the cart holds
  the line with the quantity, unit price and discount of the request written into it and
  with the tax amount and the total it had before; nothing else has changed. Arithmetic
  is exact.
\<close>

theorem cart_operations_and_line_invariant:
  assumes "cartsInv st"
  shows "cartsInv (snd (add st cid iid bc qty))
         \<and> cartsInv (snd (applyDiscount st cid pct))
         \<and> cartsInv (snd (removeLine st cid idx))
         \<and> (fst (updateLine rf st cid idx q p d) \<noteq> Inl PersistenceFailed \<longrightarrow>
               cartsInv (snd (updateLine rf st cid idx q p d)))
         \<and> (\<not> rf \<longrightarrow> fst (updateLine rf st cid idx q p d) \<noteq> Inl PersistenceFailed)
         \<and> (fst (updateLine rf st cid idx q p d) = Inl PersistenceFailed \<longrightarrow>
               (\<exists>cart i. carts st cid = Some cart \<and> arrayIndex (lines cart) idx = Some i
                  \<and> rf \<and> \<not> removesLine q \<and> truthyId (taxRateId (lines cart ! i))
                  \<and> snd (updateLine rf st cid idx q p d)
                      = st\<lparr>carts := (carts st)
                             (cid \<mapsto> cart\<lparr>lines := (lines cart)
                                       [i := writeFields q p d (lines cart ! i)]\<rparr>)\<rparr>
                  \<and> taxAmount (writeFields q p d (lines cart ! i)) = taxAmount (lines cart ! i)
                  \<and> lineTotal (writeFields q p d (lines cart ! i)) = lineTotal (lines cart ! i)))"
proof (intro conjI impI)
  show "cartsInv (snd (add st cid iid bc qty))" using assms by (rule cartsInv_add)
  show "cartsInv (snd (applyDiscount st cid pct))" using assms by (rule cartsInv_applyDiscount)
  show "cartsInv (snd (removeLine st cid idx))" using assms by (rule cartsInv_removeLine)
  show "cartsInv (snd (updateLine rf st cid idx q p d))"
    if "fst (updateLine rf st cid idx q p d) \<noteq> Inl PersistenceFailed"
    using assms that by (rule cartsInv_updateLine)
  show "fst (updateLine rf st cid idx q p d) \<noteq> Inl PersistenceFailed" if "\<not> rf"
    using that updateLine_failure [of rf st cid idx q p d] by blast
  assume f: "fst (updateLine rf st cid idx q p d) = Inl PersistenceFailed"
  have k: "taxAmount (writeFields q p d l) = taxAmount l
           \<and> lineTotal (writeFields q p d l) = lineTotal l" for l
    by (simp add: writeFields_def Let_def split: option.splits)
  from updateLine_failure [OF f] k
  show "\<exists>cart i. carts st cid = Some cart \<and> arrayIndex (lines cart) idx = Some i
                  \<and> rf \<and> \<not> removesLine q \<and> truthyId (taxRateId (lines cart ! i))
                  \<and> snd (updateLine rf st cid idx q p d)
                      = st\<lparr>carts := (carts st)
                             (cid \<mapsto> cart\<lparr>lines := (lines cart)
                                       [i := writeFields q p d (lines cart ! i)]\<rparr>)\<rparr>
                  \<and> taxAmount (writeFields q p d (lines cart ! i)) = taxAmount (lines cart ! i)
                  \<and> lineTotal (writeFields q p d (lines cart ! i)) = lineTotal (lines cart ! i)"
    by blast
qed

theorem cart_operations_and_line_invariant_witness:
  "cartsInv started \<and> cartsInv scanned \<and> cartsInv discounted
   \<and> fst (updateLine False discounted ''c1'' (Fin 0) (Some 3) None (Some 20))
       \<noteq> Inl PersistenceFailed
   \<and> cartsInv (snd (updateLine False discounted ''c1'' (Fin 0) (Some 3) None (Some 20)))"
proof -
  have 1: "cartsInv started"
    by (simp add: cartsInv_def started_def shop_def start_def Let_def)
  from cart_operations_and_line_invariant
         [OF 1, of "''c1''" None "Some ''8900000000011''" QtyAbsent]
  have 2: "cartsInv scanned" by (simp add: scanned_def)
  from cart_operations_and_line_invariant [OF 2, of "''c1''" _ _ _ "Some 10"]
  have 3: "cartsInv discounted" by (simp add: discounted_def)
  from cart_operations_and_line_invariant
         [OF 3, where cid = "''c1''" and rf = False and idx = "Fin 0" and q = "Some 3"
            and p = None and d = "Some 20"]
  have 4: "fst (updateLine False discounted ''c1'' (Fin 0) (Some 3) None (Some 20))
             \<noteq> Inl PersistenceFailed
           \<and> cartsInv (snd (updateLine False discounted ''c1'' (Fin 0) (Some 3) None (Some 20)))"
    by simp
  from 1 2 3 4 show ?thesis by simp
qed

subsection \<open>The loops of the settlement\<close>

lemma stockLoop_all:
  "(\<forall>j<length ls. \<not> fails (i + j)) \<Longrightarrow>
     stockLoop fails ref i ls sl = (sl @ map (stockEntry ref) ls, True)"
proof (induction ls arbitrary: i sl)
  case Nil
  then show ?case by simp
next
  case (Cons l ls)
  from Cons.prems have h: "\<not> fails i" by force
  from Cons.prems have t: "\<forall>j<length ls. \<not> fails (Suc i + j)" by force
  from Cons.IH [OF t] h show ?case by simp
qed

lemma stockLoop_first_failure:
  "k < length ls \<Longrightarrow> fails (i + k) \<Longrightarrow> (\<forall>j<k. \<not> fails (i + j)) \<Longrightarrow>
     stockLoop fails ref i ls sl = (sl @ map (stockEntry ref) (take k ls), False)"
proof (induction ls arbitrary: i k sl)
  case Nil
  then show ?case by simp
next
  case (Cons l ls)
  show ?case
  proof (cases k)
    case 0
    with Cons.prems show ?thesis by simp
  next
    case (Suc k')
    from Cons.prems Suc have h: "\<not> fails i" by force
    from Cons.prems Suc have a: "k' < length ls" and b: "fails (Suc i + k')" by simp_all
    from Cons.prems Suc have c: "\<forall>j<k'. \<not> fails (Suc i + j)" by force
    from Cons.IH [OF a b c] h Suc show ?thesis by simp
  qed
qed

lemma stockLoop_outcome:
  "stockLoop fails ref i ls sl = (sl', ok) \<Longrightarrow>
     (ok \<and> sl' = sl @ map (stockEntry ref) ls)
     \<or> (\<not> ok \<and> (\<exists>k<length ls. fails (i + k) \<and> sl' = sl @ map (stockEntry ref) (take k ls)))"
proof (induction ls arbitrary: i sl)
  case Nil
  then show ?case by auto
next
  case (Cons l ls)
  show ?case
  proof (cases "fails i")
    case True
    with Cons.prems show ?thesis by auto
  next
    case False
    with Cons.prems have "stockLoop fails ref (Suc i) ls (sl @ [stockEntry ref l]) = (sl', ok)"
      by simp
    from Cons.IH [OF this] show ?thesis
    proof
      assume "ok \<and> sl' = (sl @ [stockEntry ref l]) @ map (stockEntry ref) ls"
      then show ?thesis by simp
    next
      assume "\<not> ok \<and> (\<exists>k<length ls. fails (Suc i + k)
                \<and> sl' = (sl @ [stockEntry ref l]) @ map (stockEntry ref) (take k ls))"
      then obtain k where k: "\<not> ok" "k < length ls" "fails (Suc i + k)"
        "sl' = (sl @ [stockEntry ref l]) @ map (stockEntry ref) (take k ls)" by blast
      then have "Suc k < length (l # ls) \<and> fails (i + Suc k)
                 \<and> sl' = sl @ map (stockEntry ref) (take (Suc k) (l # ls))" by simp
      with k(1) show ?thesis by blast
    qed
  qed
qed

lemma find_app:
  "find P (xs @ ys) = (case find P xs of None \<Rightarrow> find P ys | Some x \<Rightarrow> Some x)"
  by (induction xs) simp_all

lemma findMethod_append:
  "findMethod pms m = Some pm \<Longrightarrow> findMethod (pms @ ext) m = Some pm"
  by (simp add: findMethod_def find_app)

lemma findMethod_new:
  "findMethod pms m = None \<Longrightarrow> pm_code pm = Some m \<or> pm_name pm = m \<Longrightarrow>
     findMethod (pms @ [pm]) m = Some pm"
  by (simp add: findMethod_def find_app)

lemma ensureMethod_grows: "\<exists>ext. fst (ensureMethod F i pms m) = pms @ ext"
  by (simp add: ensureMethod_def Let_def split: option.splits)

lemma ensureMethod_Some:
  "ensureMethod F i pms m = (pms', Some pm) \<Longrightarrow> findMethod pms' m = Some pm"
  by (auto simp: ensureMethod_def Let_def findMethod_new split: option.splits if_splits)

lemma ensureMethod_works:
  "\<not> (methodCreateFails F i \<and> methodCreateByNameFails F i) \<Longrightarrow>
     \<exists>pm. snd (ensureMethod F i pms m) = Some pm"
  by (auto simp: ensureMethod_def Let_def split: option.splits)

lemma recorded_append: "recorded pms p c \<Longrightarrow> recorded (pms @ ext) p c"
  by (auto simp: recorded_def findMethod_append split: option.splits)

lemma createPayments_grows: "\<exists>ext. fst (createPayments F i pms ps acc) = pms @ ext"
proof (induction ps arbitrary: i pms acc)
  case Nil
  then show ?case by simp
next
  case (Cons p ps)
  obtain pms' r where e: "ensureMethod F i pms (methodName p) = (pms', r)" by force
  from ensureMethod_grows [of F i pms "methodName p"] e obtain ext where x: "pms' = pms @ ext"
    by auto
  show ?case
  proof (cases r)
    case None
    with e x show ?thesis by simp
  next
    case (Some pm)
    from Cons.IH [of "Suc i" pms' "acc @ [mkPayment p pm]"] obtain ext'
      where "fst (createPayments F (Suc i) pms' ps (acc @ [mkPayment p pm])) = pms' @ ext'"
      by blast
    with e x Some show ?thesis by simp
  qed
qed

lemma createPayments_Some:
  "createPayments F i pms ps acc = (pms', Some cps) \<Longrightarrow>
     \<exists>new. cps = acc @ new \<and> list_all2 (recorded pms') ps new"
proof (induction ps arbitrary: i pms acc)
  case Nil
  then show ?case by simp
next
  case (Cons p ps)
  obtain pms1 r where e: "ensureMethod F i pms (methodName p) = (pms1, r)" by force
  with Cons.prems obtain pm where r: "r = Some pm" by (cases r) auto
  with Cons.prems e
  have rec: "createPayments F (Suc i) pms1 ps (acc @ [mkPayment p pm]) = (pms', Some cps)"
    by simp
  from Cons.IH [OF rec] obtain new
    where n: "cps = (acc @ [mkPayment p pm]) @ new" "list_all2 (recorded pms') ps new" by blast
  from createPayments_grows [of F "Suc i" pms1 ps "acc @ [mkPayment p pm]"] rec
  obtain ext where x: "pms' = pms1 @ ext" by auto
  from e r have "findMethod pms1 (methodName p) = Some pm" by (simp add: ensureMethod_Some)
  then have "recorded pms1 p (mkPayment p pm)" by (simp add: recorded_def mkPayment_def)
  then have "recorded pms' p (mkPayment p pm)" unfolding x by (rule recorded_append)
  with n have "cps = acc @ (mkPayment p pm # new) \<and> list_all2 (recorded pms') (p # ps) (mkPayment p pm # new)"
    by simp
  then show ?case by blast
qed

lemma createPayments_works:
  "(\<forall>j<length ps. \<not> (methodCreateFails F (i + j) \<and> methodCreateByNameFails F (i + j))) \<Longrightarrow>
     \<exists>cps. snd (createPayments F i pms ps acc) = Some cps"
proof (induction ps arbitrary: i pms acc)
  case Nil
  then show ?case by simp
next
  case (Cons p ps)
  from Cons.prems have h: "\<not> (methodCreateFails F i \<and> methodCreateByNameFails F i)" by force
  from Cons.prems
  have t: "\<forall>j<length ps. \<not> (methodCreateFails F (Suc i + j) \<and> methodCreateByNameFails F (Suc i + j))"
    by force
  from ensureMethod_works [OF h, of pms "methodName p"] obtain pm pms1
    where e: "ensureMethod F i pms (methodName p) = (pms1, Some pm)"
    by (metis prod.collapse)
  from Cons.IH [OF t, of pms1 "acc @ [mkPayment p pm]"] e show ?case by simp
qed

lemma receiptNumber_mkReceipt [simp]: "receiptNumber (mkReceipt env cart cust cps) = mkReceiptNumber env"
  by (simp add: mkReceipt_def)

lemma complete_works:
  assumes c: "carts st cid = Some cart" and n: "lines cart \<noteq> []"
    and w: "writesSucceed F (length pays) (length (lines cart))"
  shows "\<exists>pms cps. createPayments F 0 (paymentMethods st) pays [] = (pms, Some cps)
     \<and> complete env F st cid pays cust =
         (Inr (mkReceipt env cart cust cps),
          st\<lparr>paymentMethods := pms,
             receipts := receipts st @ [mkReceipt env cart cust cps],
             stockLedger := stockLedger st @ map (stockEntry (mkReceiptNumber env)) (lines cart),
             carts := (carts st)(cid := None)\<rparr>)"
proof -
  from w have m: "\<forall>j<length pays. \<not> (methodCreateFails F (0 + j) \<and> methodCreateByNameFails F (0 + j))"
    by (simp add: writesSucceed_def)
  from createPayments_works [OF m, of "paymentMethods st" "[]"] obtain pms cps
    where p: "createPayments F 0 (paymentMethods st) pays [] = (pms, Some cps)"
    by (metis prod.collapse)
  from w have r: "\<not> receiptCreateFails F" by (simp add: writesSucceed_def)
  from w have "\<forall>j<length (lines cart). \<not> stockCreateFails F (0 + j)"
    by (simp add: writesSucceed_def)
  then have s: "stockLoop (stockCreateFails F) ref 0 (lines cart) sl
                  = (sl @ map (stockEntry ref) (lines cart), True)" for ref sl
    by (rule stockLoop_all)
  from c n p r show ?thesis
    by (simp add: complete_def Let_def s)
qed

lemma complete_Inr:
  assumes c: "carts st cid = Some cart" and r: "complete env F st cid pays cust = (Inr r, st')"
  shows "lines cart \<noteq> [] \<and> (\<exists>pms cps. createPayments F 0 (paymentMethods st) pays [] = (pms, Some cps)
     \<and> r = mkReceipt env cart cust cps
     \<and> st' = st\<lparr>paymentMethods := pms,
             receipts := receipts st @ [mkReceipt env cart cust cps],
             stockLedger := stockLedger st @ map (stockEntry (mkReceiptNumber env)) (lines cart),
             carts := (carts st)(cid := None)\<rparr>)"
proof -
  from c r have n: "lines cart \<noteq> []" by (auto simp: complete_def)
  obtain pms res where p: "createPayments F 0 (paymentMethods st) pays [] = (pms, res)" by force
  with c r n obtain cps where o: "res = Some cps" by (cases res) (auto simp: complete_def)
  from c r n p o have f: "\<not> receiptCreateFails F" by (auto simp: complete_def)
  obtain sl ok where s: "stockLoop (stockCreateFails F) (mkReceiptNumber env) 0 (lines cart)
        (stockLedger st) = (sl, ok)" by force
  with c r n p o f have ok: "ok" by (cases ok) (auto simp: complete_def Let_def)
  with stockLoop_outcome [OF s]
  have sl: "sl = stockLedger st @ map (stockEntry (mkReceiptNumber env)) (lines cart)" by simp
  from c r n p o f s ok sl show ?thesis by (auto simp: complete_def Let_def)
qed

lemma complete_Inl:
  assumes c: "carts st cid = Some cart" and n: "lines cart \<noteq> []"
    and r: "complete env F st cid pays cust = (Inl e, st')"
  shows "e = PersistenceFailed \<and> carts st' = carts st
     \<and> ((receipts st' = receipts st \<and> stockLedger st' = stockLedger st)
        \<or> (\<exists>cps k. k < length (lines cart) \<and> stockCreateFails F k
              \<and> snd (createPayments F 0 (paymentMethods st) pays []) = Some cps
              \<and> receipts st' = receipts st @ [mkReceipt env cart cust cps]
              \<and> stockLedger st' = stockLedger st
                    @ map (stockEntry (mkReceiptNumber env)) (take k (lines cart))))"
proof -
  obtain pms res where p: "createPayments F 0 (paymentMethods st) pays [] = (pms, res)" by force
  show ?thesis
  proof (cases res)
    case None
    with c n r p show ?thesis by (auto simp: complete_def)
  next
    case (Some cps)
    show ?thesis
    proof (cases "receiptCreateFails F")
      case True
      with c n r p Some show ?thesis by (auto simp: complete_def)
    next
      case False
      obtain sl ok where s: "stockLoop (stockCreateFails F) (mkReceiptNumber env) 0 (lines cart)
        (stockLedger st) = (sl, ok)" by force
      with c n r p Some False have ok: "\<not> ok" by (cases ok) (auto simp: complete_def Let_def)
      with stockLoop_outcome [OF s] obtain k where k: "k < length (lines cart)"
        "stockCreateFails F k"
        "sl = stockLedger st @ map (stockEntry (mkReceiptNumber env)) (take k (lines cart))"
        by auto
      from c n r p Some False s ok have "e = PersistenceFailed \<and> carts st' = carts st
          \<and> receipts st' = receipts st @ [mkReceipt env cart cust cps] \<and> stockLedger st' = sl"
        by (auto simp: complete_def Let_def)
      with k p Some show ?thesis by auto
    qed
  qed
qed

lemma complete_stock_failure:
  assumes c: "carts st cid = Some cart"
    and w: "writesSucceed F (length pays) k"
    and k: "k < length (lines cart)" and f: "stockCreateFails F k"
  shows "\<exists>pms cps. createPayments F 0 (paymentMethods st) pays [] = (pms, Some cps)
     \<and> complete env F st cid pays cust =
         (Inl PersistenceFailed,
          st\<lparr>paymentMethods := pms,
             receipts := receipts st @ [mkReceipt env cart cust cps],
             stockLedger := stockLedger st
                @ map (stockEntry (mkReceiptNumber env)) (take k (lines cart))\<rparr>)"
proof -
  from k have n: "lines cart \<noteq> []" by auto
  from w have m: "\<forall>j<length pays. \<not> (methodCreateFails F (0 + j) \<and> methodCreateByNameFails F (0 + j))"
    by (simp add: writesSucceed_def)
  from createPayments_works [OF m, of "paymentMethods st" "[]"] obtain pms cps
    where p: "createPayments F 0 (paymentMethods st) pays [] = (pms, Some cps)"
    by (metis prod.collapse)
  from w have r: "\<not> receiptCreateFails F" by (simp add: writesSucceed_def)
  from w have b: "\<forall>j<k. \<not> stockCreateFails F (0 + j)"
    by (simp add: writesSucceed_def)
  from f have f': "stockCreateFails F (0 + k)" by simp
  have s: "stockLoop (stockCreateFails F) ref 0 (lines cart) sl
                  = (sl @ map (stockEntry ref) (take k (lines cart)), False)" for ref sl
    using k f' b by (rule stockLoop_first_failure)
  from c n p r show ?thesis
    by (simp add: complete_def Let_def s)
qed

subsection \<open>What a settlement checks and what it stores\<close>

lemma noFaults_writesSucceed: "writesSucceed noFaults n m"
  by (simp add: writesSucceed_def noFaults_def)

theorem complete_accepts_partial_payment_counterexample:
  "paidTotal [tender ''CASH'' 100] = 100
   \<and> map_option (\<lambda>c. cartTotalAmount (lines c)) (carts discounted ''c1'') = Some 114
   \<and> fst (complete clock noFaults discounted ''c1'' [tender ''CASH'' 100] None) =
       Inr \<lparr>receiptNumber = ''R170000000000042'', date = 1700000000000, customerId = None,
            totalBeforeDiscount = 120, totalDiscount = 12, totalTax = 6, totalAmount = 114,
            cgst = 3, sgst = 3, igst = 0, receipt_cess = 0, status = ''COMPLETED'',
            receipt_lines = [\<lparr>rl_itemId = 1, rl_quantity = 1, rl_unitPrice = 120,
                               rl_discount = 12, rl_taxAmount = 6, rl_lineTotal = 114,
                               rl_taxRateId = Some 2\<rparr>],
            payments = [\<lparr>pay_amount = 100, pay_reference = None, pay_status = ''SUCCESS'',
                          pay_methodId = 1\<rparr>]\<rparr>"
  by code_simp

text \<open>
  Claim C1, as the code has it. The handler never adds the tenders up and never compares
  them with the total of the cart: for every cart of the registry that has a line, and
  for every list of tenders (also one that pays less than the total, and the empty one),
  the settlement stores a receipt over the full total of the cart, provided no database
  write throws. The tender of 100 against a total of 114 below is accepted.
\<close>

theorem complete_ignores_amount_paid:
  assumes "carts st cid = Some cart" and "lines cart \<noteq> []"
    and "writesSucceed F (length pays) (length (lines cart))"
  shows "\<exists>r. fst (complete env F st cid pays cust) = Inr r
           \<and> totalAmount r = cartTotalAmount (lines cart)
           \<and> receipts (snd (complete env F st cid pays cust)) = receipts st @ [r]"
proof -
  from complete_works [OF assms, where env = env and cust = cust] obtain pms cps where
    "complete env F st cid pays cust =
         (Inr (mkReceipt env cart cust cps),
          st\<lparr>paymentMethods := pms,
             receipts := receipts st @ [mkReceipt env cart cust cps],
             stockLedger := stockLedger st @ map (stockEntry (mkReceiptNumber env)) (lines cart),
             carts := (carts st)(cid := None)\<rparr>)" by blast
  then show ?thesis by (simp add: mkReceipt_def)
qed

theorem complete_ignores_amount_paid_witness:
  "paidTotal [tender ''CASH'' 100] < 114
   \<and> \<not> isl (fst (complete clock noFaults discounted ''c1'' [tender ''CASH'' 100] None))
   \<and> totalAmount (projr (fst (complete clock noFaults discounted ''c1'' [tender ''CASH'' 100] None)))
       = 114"
proof -
  have p: "paidTotal [tender ''CASH'' 100] < 114" by code_simp
  have n: "lines \<lparr>cart_id = ''c1'',
           lines = [\<lparr>itemId = 1, quantity = 1, unitPrice = 120, discount = 12,
                     taxRateId = Some 2, taxAmount = 6, lineTotal = 114,
                     name = ''Basmati Rice 1kg''\<rparr>]\<rparr> \<noteq> []" by simp
  from complete_ignores_amount_paid [OF discounted_cart n noFaults_writesSucceed,
      where pays = "[tender ''CASH'' 100]" and env = clock and cust = None] p
  show ?thesis by (auto simp: cartTotalAmount_def)
qed

lemma twoLines_cart:
  "carts twoLines ''c1'' =
     Some \<lparr>cart_id = ''c1'',
           lines = [\<lparr>itemId = 1, quantity = 1, unitPrice = 120, discount = 12,
                     taxRateId = Some 2, taxAmount = 6, lineTotal = 114,
                     name = ''Basmati Rice 1kg''\<rparr>,
                    \<lparr>itemId = 1, quantity = 2, unitPrice = 120, discount = 0,
                     taxRateId = Some 2, taxAmount = 12, lineTotal = 252,
                     name = ''Basmati Rice 1kg''\<rparr>]\<rparr>"
  by code_simp

theorem settlement_not_atomic_counterexample:
  "fst (complete clock firstStockWriteFails discounted ''c1'' [tender ''CASH'' 114] None)
     = Inl PersistenceFailed
   \<and> map receiptNumber
        (receipts (snd (complete clock firstStockWriteFails discounted ''c1''
                          [tender ''CASH'' 114] None)))
     = [''R170000000000042'']
   \<and> stockLedger (snd (complete clock firstStockWriteFails discounted ''c1''
                          [tender ''CASH'' 114] None)) = []
   \<and> carts (snd (complete clock firstStockWriteFails discounted ''c1''
                          [tender ''CASH'' 114] None)) ''c1'' = carts discounted ''c1''"
  by code_simp

lemma createPayments_length:
  "createPayments F 0 pms ps [] = (pms', Some cps) \<Longrightarrow> length cps = length ps"
  using createPayments_Some [of F 0 pms ps "[]" pms' cps] by (auto dest: list_all2_lengthD)

lemma createPayments_table_any_acc:
  "fst (createPayments F i pms ps acc) = fst (createPayments F i pms ps acc')"
proof (induction ps arbitrary: i pms acc acc')
  case Nil
  then show ?case by simp
next
  case (Cons p ps)
  obtain pms1 r where e: "ensureMethod F i pms (methodName p) = (pms1, r)" by force
  show ?case
  proof (cases r)
    case None
    with e show ?thesis by simp
  next
    case (Some pm)
    with e Cons.IH [of "Suc i" pms1 "acc @ [mkPayment p pm]" "acc' @ [mkPayment p pm]"]
    show ?thesis by simp
  qed
qed

lemma ensureMethod_None_iff:
  "snd (ensureMethod F i pms m) = None \<longleftrightarrow>
     findMethod pms m = None \<and> methodCreateFails F i \<and> methodCreateByNameFails F i"
  by (simp add: ensureMethod_def Let_def split: option.splits)

lemma createPayments_None_iff:
  "snd (createPayments F i pms ps acc) = None \<longleftrightarrow>
     (\<exists>j<length ps.
        findMethod (fst (createPayments F i pms (take j ps) [])) (methodName (ps ! j)) = None
        \<and> methodCreateFails F (i + j) \<and> methodCreateByNameFails F (i + j))"
proof (induction ps arbitrary: i pms acc)
  case Nil
  then show ?case by simp
next
  case (Cons p ps)
  let ?T = "\<lambda>i pms ps j. findMethod (fst (createPayments F i pms (take j ps) []))
                              (methodName (ps ! j)) = None
              \<and> methodCreateFails F (i + j) \<and> methodCreateByNameFails F (i + j)"
  obtain pms1 r where e: "ensureMethod F i pms (methodName p) = (pms1, r)" by force
  show ?case
  proof (cases r)
    case None
    with e have "snd (ensureMethod F i pms (methodName p)) = None" by simp
    then have "?T i pms (p # ps) 0" by (simp add: ensureMethod_None_iff)
    then have "\<exists>j<length (p # ps). ?T i pms (p # ps) j" by (intro exI [of _ 0]) simp
    moreover from e None have "snd (createPayments F i pms (p # ps) acc) = None" by simp
    ultimately show ?thesis by simp
  next
    case (Some pm)
    from e Some have n0: "\<not> ?T i pms (p # ps) 0"
      using ensureMethod_None_iff [of F i pms "methodName p"] by simp
    have step: "?T i pms (p # ps) (Suc j) \<longleftrightarrow> ?T (Suc i) pms1 ps j" for j
      using e Some
        createPayments_table_any_acc [of F "Suc i" pms1 "take j ps" "[mkPayment p pm]" "[]"]
      by simp
    have "snd (createPayments F i pms (p # ps) acc) = None \<longleftrightarrow>
            snd (createPayments F (Suc i) pms1 ps (acc @ [mkPayment p pm])) = None"
      using e Some by simp
    also have "\<dots> \<longleftrightarrow> (\<exists>j<length ps. ?T (Suc i) pms1 ps j)"
      by (rule Cons.IH)
    also have "\<dots> \<longleftrightarrow> (\<exists>j<length ps. ?T i pms (p # ps) (Suc j))"
      using step by simp
    also have "\<dots> \<longleftrightarrow> (\<exists>j<length (p # ps). ?T i pms (p # ps) j)"
    proof
      assume "\<exists>j<length ps. ?T i pms (p # ps) (Suc j)"
      then obtain j where "j < length ps" "?T i pms (p # ps) (Suc j)" by blast
      then have "Suc j < length (p # ps) \<and> ?T i pms (p # ps) (Suc j)" by simp
      then show "\<exists>j<length (p # ps). ?T i pms (p # ps) j" by blast
    next
      assume "\<exists>j<length (p # ps). ?T i pms (p # ps) j"
      then obtain j where j: "j < length (p # ps)" "?T i pms (p # ps) j" by blast
      with n0 obtain j' where "j = Suc j'" by (cases j) auto
      with j have "j' < length ps \<and> ?T i pms (p # ps) (Suc j')" by simp
      then show "\<exists>j<length ps. ?T i pms (p # ps) (Suc j)" by blast
    qed
    finally show ?thesis .
  qed
qed

lemma methodWriteThrows_iff:
  "methodWriteThrows F st pays \<longleftrightarrow>
     snd (createPayments F 0 (paymentMethods st) pays []) = None"
  using createPayments_None_iff [of F 0 "paymentMethods st" pays "[]"]
  by (auto simp: methodWriteThrows_def tableAt_def)

lemma complete_early_throw:
  assumes c: "carts st cid = Some cart" and n: "lines cart \<noteq> []"
    and t: "methodWriteThrows F st pays \<or> receiptCreateFails F"
  shows "complete env F st cid pays cust =
           (Inl PersistenceFailed,
            st\<lparr>paymentMethods := fst (createPayments F 0 (paymentMethods st) pays [])\<rparr>)"
proof -
  obtain pms res where p: "createPayments F 0 (paymentMethods st) pays [] = (pms, res)" by force
  show ?thesis
  proof (cases res)
    case None
    with c n p show ?thesis by (simp add: complete_def)
  next
    case (Some cps)
    with p have "\<not> methodWriteThrows F st pays" by (simp add: methodWriteThrows_iff)
    with t have "receiptCreateFails F" by simp
    with c n p Some show ?thesis by (simp add: complete_def)
  qed
qed

lemma complete_after_receipt:
  assumes c: "carts st cid = Some cart" and n: "lines cart \<noteq> []"
    and m: "\<not> methodWriteThrows F st pays" and r: "\<not> receiptCreateFails F"
  shows "\<exists>pms cps. createPayments F 0 (paymentMethods st) pays [] = (pms, Some cps)
     \<and> length cps = length pays
     \<and> complete env F st cid pays cust =
         (case stockLoop (stockCreateFails F) (mkReceiptNumber env) 0 (lines cart) (stockLedger st) of
            (sl, False) \<Rightarrow>
              (Inl PersistenceFailed,
               st\<lparr>paymentMethods := pms,
                  receipts := receipts st @ [mkReceipt env cart cust cps],
                  stockLedger := sl\<rparr>)
          | (sl, True) \<Rightarrow>
              (Inr (mkReceipt env cart cust cps),
               st\<lparr>paymentMethods := pms,
                  receipts := receipts st @ [mkReceipt env cart cust cps],
                  stockLedger := sl,
                  carts := (carts st)(cid := None)\<rparr>))"
proof -
  from m obtain cps where "snd (createPayments F 0 (paymentMethods st) pays []) = Some cps"
    by (auto simp: methodWriteThrows_iff)
  then obtain pms where p: "createPayments F 0 (paymentMethods st) pays [] = (pms, Some cps)"
    by (metis prod.collapse)
  from createPayments_length [OF p] have l: "length cps = length pays" .
  from c n p r l show ?thesis
    by (auto simp: complete_def Let_def split: prod.splits bool.splits)
qed

text \<open>
  Claim C2, as the code has it. The receipt with all its lines and payments is one nested
  \<^verbatim>\<open>create\<close>; the stock entries are written after it, one \<^verbatim>\<open>create\<close> per line, and
  nothing is undone when a write throws. So, for a cart of the registry that has a line:
  \<^item> a settlement that answers with a receipt has stored that receipt, with one receipt
    line per cart line and one payment per tender, and exactly one stock entry per line,
    and has removed the cart;
  \<^item> a settlement that answers with an error has kept the cart and has stored either
    nothing, or the receipt and the stock entries of the lines before the line \<open>k\<close> whose
    stock write threw;
  \<^item> when a write before the stock writes throws (a payment method cannot be created,
    or the receipt cannot), the settlement answers with an error and has stored neither
    a receipt nor a stock entry;
  \<^item> when no such write throws and the stock write of line \<open>k\<close> is the first to throw,
    the settlement answers with an error, the cart stays, and the receipt and the stock
    entries of the lines before \<open>k\<close> stay stored;
  \<^item> when no write throws at all, the settlement answers with a receipt.
\<close>

theorem settlement_outcomes:
  assumes c: "carts st cid = Some cart" and n: "lines cart \<noteq> []"
    and r: "complete env F st cid pays cust = (res, st')"
  shows "(\<forall>r. res = Inr r \<longrightarrow>
            receipts st' = receipts st @ [r]
            \<and> receipt_lines r = map toReceiptLine (lines cart)
            \<and> length (payments r) = length pays
            \<and> stockLedger st' = stockLedger st @ map (stockEntry (receiptNumber r)) (lines cart)
            \<and> carts st' = (carts st)(cid := None))
         \<and> (\<forall>e. res = Inl e \<longrightarrow>
              e = PersistenceFailed \<and> carts st' = carts st
              \<and> ((receipts st' = receipts st \<and> stockLedger st' = stockLedger st)
                 \<or> (\<exists>r k. k < length (lines cart) \<and> stockCreateFails F k
                       \<and> receipts st' = receipts st @ [r]
                       \<and> receipt_lines r = map toReceiptLine (lines cart)
                       \<and> length (payments r) = length pays
                       \<and> stockLedger st' = stockLedger st
                            @ map (stockEntry (receiptNumber r)) (take k (lines cart)))))
         \<and> (methodWriteThrows F st pays \<or> receiptCreateFails F \<longrightarrow>
               res = Inl PersistenceFailed \<and> carts st' = carts st
               \<and> receipts st' = receipts st \<and> stockLedger st' = stockLedger st)
         \<and> (\<forall>k. \<not> methodWriteThrows F st pays \<and> \<not> receiptCreateFails F
                \<and> k < length (lines cart) \<and> stockCreateFails F k
                \<and> (\<forall>j<k. \<not> stockCreateFails F j) \<longrightarrow>
               res = Inl PersistenceFailed \<and> carts st' = carts st
               \<and> (\<exists>r. receipts st' = receipts st @ [r]
                       \<and> receipt_lines r = map toReceiptLine (lines cart)
                       \<and> length (payments r) = length pays
                       \<and> stockLedger st' = stockLedger st
                            @ map (stockEntry (receiptNumber r)) (take k (lines cart))))
         \<and> (\<not> methodWriteThrows F st pays \<and> \<not> receiptCreateFails F
               \<and> (\<forall>j<length (lines cart). \<not> stockCreateFails F j) \<longrightarrow>
               (\<exists>r. res = Inr r))"
proof (intro conjI allI impI)
  fix rc assume "res = Inr rc"
  with r have "complete env F st cid pays cust = (Inr rc, st')" by simp
  from complete_Inr [OF c this] obtain pms cps where
    p: "createPayments F 0 (paymentMethods st) pays [] = (pms, Some cps)"
    and rc: "rc = mkReceipt env cart cust cps"
    and st': "st' = st\<lparr>paymentMethods := pms,
             receipts := receipts st @ [mkReceipt env cart cust cps],
             stockLedger := stockLedger st @ map (stockEntry (mkReceiptNumber env)) (lines cart),
             carts := (carts st)(cid := None)\<rparr>" by blast
  from createPayments_length [OF p] have l: "length cps = length pays" .
  show "receipts st' = receipts st @ [rc]" by (simp add: st' rc)
  show "receipt_lines rc = map toReceiptLine (lines cart)" by (simp add: rc mkReceipt_def)
  show "length (payments rc) = length pays" by (simp add: rc mkReceipt_def l)
  show "stockLedger st' = stockLedger st @ map (stockEntry (receiptNumber rc)) (lines cart)"
    by (simp add: st' rc)
  show "carts st' = (carts st)(cid := None)" by (simp add: st')
next
  fix e assume "res = Inl e"
  with r have i: "complete env F st cid pays cust = (Inl e, st')" by simp
  note o = complete_Inl [OF c n i]
  from o show "e = PersistenceFailed" by simp
  from o show "carts st' = carts st" by simp
  from o have "(receipts st' = receipts st \<and> stockLedger st' = stockLedger st)
        \<or> (\<exists>cps k. k < length (lines cart) \<and> stockCreateFails F k
              \<and> snd (createPayments F 0 (paymentMethods st) pays []) = Some cps
              \<and> receipts st' = receipts st @ [mkReceipt env cart cust cps]
              \<and> stockLedger st' = stockLedger st
                    @ map (stockEntry (mkReceiptNumber env)) (take k (lines cart)))" by simp
  then show "(receipts st' = receipts st \<and> stockLedger st' = stockLedger st)
                 \<or> (\<exists>r k. k < length (lines cart) \<and> stockCreateFails F k
                       \<and> receipts st' = receipts st @ [r]
                       \<and> receipt_lines r = map toReceiptLine (lines cart)
                       \<and> length (payments r) = length pays
                       \<and> stockLedger st' = stockLedger st
                            @ map (stockEntry (receiptNumber r)) (take k (lines cart)))"
  proof
    assume "receipts st' = receipts st \<and> stockLedger st' = stockLedger st"
    then show ?thesis by simp
  next
    assume "\<exists>cps k. k < length (lines cart) \<and> stockCreateFails F k
              \<and> snd (createPayments F 0 (paymentMethods st) pays []) = Some cps
              \<and> receipts st' = receipts st @ [mkReceipt env cart cust cps]
              \<and> stockLedger st' = stockLedger st
                    @ map (stockEntry (mkReceiptNumber env)) (take k (lines cart))"
    then obtain cps k where k: "k < length (lines cart)" "stockCreateFails F k"
      and p: "snd (createPayments F 0 (paymentMethods st) pays []) = Some cps"
      and x: "receipts st' = receipts st @ [mkReceipt env cart cust cps]"
        "stockLedger st' = stockLedger st
                    @ map (stockEntry (mkReceiptNumber env)) (take k (lines cart))" by blast
    from p have "createPayments F 0 (paymentMethods st) pays []
        = (fst (createPayments F 0 (paymentMethods st) pays []), Some cps)"
      by (metis prod.collapse)
    from createPayments_length [OF this] have l: "length cps = length pays" .
    have "k < length (lines cart) \<and> stockCreateFails F k
                       \<and> receipts st' = receipts st @ [mkReceipt env cart cust cps]
                       \<and> receipt_lines (mkReceipt env cart cust cps) = map toReceiptLine (lines cart)
                       \<and> length (payments (mkReceipt env cart cust cps)) = length pays
                       \<and> stockLedger st' = stockLedger st
                            @ map (stockEntry (receiptNumber (mkReceipt env cart cust cps))) (take k (lines cart))"
      using k x l by (simp add: mkReceipt_def)
    then show ?thesis by blast
  qed
next
  assume t: "methodWriteThrows F st pays \<or> receiptCreateFails F"
  from complete_early_throw [OF c n t, of env cust] r
  have x: "res = Inl PersistenceFailed"
    "st' = st\<lparr>paymentMethods := fst (createPayments F 0 (paymentMethods st) pays [])\<rparr>"
    by simp_all
  from x show "res = Inl PersistenceFailed" by simp
  from x show "carts st' = carts st" by simp
  from x show "receipts st' = receipts st" by simp
  from x show "stockLedger st' = stockLedger st" by simp
next
  fix k
  assume a: "\<not> methodWriteThrows F st pays \<and> \<not> receiptCreateFails F
                \<and> k < length (lines cart) \<and> stockCreateFails F k
                \<and> (\<forall>j<k. \<not> stockCreateFails F j)"
  then have m: "\<not> methodWriteThrows F st pays" and f: "\<not> receiptCreateFails F"
    and k: "k < length (lines cart)" and s: "stockCreateFails F (0 + k)"
    and b: "\<forall>j<k. \<not> stockCreateFails F (0 + j)" by simp_all
  have l: "stockLoop (stockCreateFails F) (mkReceiptNumber env) 0 (lines cart) (stockLedger st)
             = (stockLedger st @ map (stockEntry (mkReceiptNumber env)) (take k (lines cart)),
                False)"
    using k s b by (rule stockLoop_first_failure)
  from complete_after_receipt [OF c n m f, of env cust] r l
  obtain pms cps where x: "length cps = length pays" "res = Inl PersistenceFailed"
    "st' = st\<lparr>paymentMethods := pms,
             receipts := receipts st @ [mkReceipt env cart cust cps],
             stockLedger := stockLedger st
                @ map (stockEntry (mkReceiptNumber env)) (take k (lines cart))\<rparr>" by auto
  from x show "res = Inl PersistenceFailed" by simp
  from x show "carts st' = carts st" by simp
  have "receipts st' = receipts st @ [mkReceipt env cart cust cps]
          \<and> receipt_lines (mkReceipt env cart cust cps) = map toReceiptLine (lines cart)
          \<and> length (payments (mkReceipt env cart cust cps)) = length pays
          \<and> stockLedger st' = stockLedger st
               @ map (stockEntry (receiptNumber (mkReceipt env cart cust cps)))
                   (take k (lines cart))"
    using x by (simp add: mkReceipt_def)
  then show "\<exists>r. receipts st' = receipts st @ [r]
                       \<and> receipt_lines r = map toReceiptLine (lines cart)
                       \<and> length (payments r) = length pays
                       \<and> stockLedger st' = stockLedger st
                            @ map (stockEntry (receiptNumber r)) (take k (lines cart))"
    by blast
next
  assume a: "\<not> methodWriteThrows F st pays \<and> \<not> receiptCreateFails F
               \<and> (\<forall>j<length (lines cart). \<not> stockCreateFails F j)"
  then have m: "\<not> methodWriteThrows F st pays" and f: "\<not> receiptCreateFails F"
    and b: "\<forall>j<length (lines cart). \<not> stockCreateFails F (0 + j)" by simp_all
  have l: "stockLoop (stockCreateFails F) (mkReceiptNumber env) 0 (lines cart) (stockLedger st)
             = (stockLedger st @ map (stockEntry (mkReceiptNumber env)) (lines cart), True)"
    using b by (rule stockLoop_all)
  from complete_after_receipt [OF c n m f, of env cust] r l
  show "\<exists>r. res = Inr r" by auto
qed

theorem settlement_outcomes_witness:
  "fst (complete clock secondStockWriteFails twoLines ''c1'' [tender ''CASH'' 366] None)
     = Inl PersistenceFailed
   \<and> length (receipts (snd (complete clock secondStockWriteFails twoLines ''c1''
                               [tender ''CASH'' 366] None))) = 1
   \<and> length (stockLedger (snd (complete clock secondStockWriteFails twoLines ''c1''
                               [tender ''CASH'' 366] None))) = 1
   \<and> fst (complete clock receiptWriteFails twoLines ''c1'' [tender ''CASH'' 366] None)
     = Inl PersistenceFailed
   \<and> receipts (snd (complete clock receiptWriteFails twoLines ''c1''
                       [tender ''CASH'' 366] None)) = []
   \<and> stockLedger (snd (complete clock receiptWriteFails twoLines ''c1''
                          [tender ''CASH'' 366] None)) = []"
proof -
  let ?c = "\<lparr>cart_id = ''c1'',
           lines = [\<lparr>itemId = 1, quantity = 1, unitPrice = 120, discount = 12,
                     taxRateId = Some 2, taxAmount = 6, lineTotal = 114,
                     name = ''Basmati Rice 1kg''\<rparr>,
                    \<lparr>itemId = 1, quantity = 2, unitPrice = 120, discount = 0,
                     taxRateId = Some 2, taxAmount = 12, lineTotal = 252,
                     name = ''Basmati Rice 1kg''\<rparr>]\<rparr>"
  have n: "lines ?c \<noteq> []" by simp
  have h: "\<not> methodWriteThrows secondStockWriteFails twoLines [tender ''CASH'' 366]
           \<and> \<not> receiptCreateFails secondStockWriteFails
           \<and> 1 < length (lines ?c) \<and> stockCreateFails secondStockWriteFails 1
           \<and> (\<forall>j<1. \<not> stockCreateFails secondStockWriteFails j)"
    by (simp add: methodWriteThrows_def secondStockWriteFails_def noFaults_def)
  have g: "methodWriteThrows receiptWriteFails twoLines [tender ''CASH'' 366]
           \<or> receiptCreateFails receiptWriteFails"
    by (simp add: receiptWriteFails_def)
  have r: "receipts twoLines = []" "stockLedger twoLines = []" by code_simp+
  from settlement_outcomes [OF twoLines_cart n surjective_pairing,
      where env = clock and F = secondStockWriteFails and pays = "[tender ''CASH'' 366]"
        and cust = None, THEN conjunct2, THEN conjunct2, THEN conjunct2, THEN conjunct1,
      THEN spec, of 1, THEN mp, OF h] r
  have A: "fst (complete clock secondStockWriteFails twoLines ''c1'' [tender ''CASH'' 366] None)
     = Inl PersistenceFailed
   \<and> length (receipts (snd (complete clock secondStockWriteFails twoLines ''c1''
                               [tender ''CASH'' 366] None))) = 1
   \<and> length (stockLedger (snd (complete clock secondStockWriteFails twoLines ''c1''
                               [tender ''CASH'' 366] None))) = 1"
    by auto
  from settlement_outcomes [OF twoLines_cart n surjective_pairing,
      where env = clock and F = receiptWriteFails and pays = "[tender ''CASH'' 366]"
        and cust = None, THEN conjunct2, THEN conjunct2, THEN conjunct1, THEN mp, OF g] r
  have B: "fst (complete clock receiptWriteFails twoLines ''c1'' [tender ''CASH'' 366] None)
     = Inl PersistenceFailed
   \<and> receipts (snd (complete clock receiptWriteFails twoLines ''c1''
                       [tender ''CASH'' 366] None)) = []
   \<and> stockLedger (snd (complete clock receiptWriteFails twoLines ''c1''
                          [tender ''CASH'' 366] None)) = []"
    by simp
  from A B show ?thesis by simp
qed

theorem complete_accepts_unknown_method_counterexample:
  "findMethod (paymentMethods discounted) ''BITCOIN'' = None
   \<and> map_sum id payments
        (fst (complete clock noFaults discounted ''c1'' [tender ''bitcoin'' (- 5)] None))
     = Inr [\<lparr>pay_amount = - 5, pay_reference = None, pay_status = ''SUCCESS'',
             pay_methodId = 7\<rparr>]
   \<and> paymentMethods (snd (complete clock noFaults discounted ''c1'' [tender ''bitcoin'' (- 5)] None))
     = seedMethods @ [\<lparr>pm_id = 7, pm_code = Some ''BITCOIN'', pm_name = ''BITCOIN''\<rparr>]"
  by code_simp

lemma findMethod_None_old:
  "findMethod pms m = None \<Longrightarrow> findMethod pms' m = Some pm \<Longrightarrow> pm \<notin> set pms"
  by (auto simp: findMethod_def find_None_iff find_Some_iff)

text \<open>
  Claim C5, as the code has it. A tender is never refused. For every cart of the registry
  that has a line and every list of tenders, when no database write throws, the
  settlement answers with a receipt that holds one payment per tender, in order, with
  the tender's amount as it came (zero and negative amounts too) and the status
  \<^verbatim>\<open>SUCCESS\<close>, pointing to the payment method that the table holds for the tender's
  method name afterwards; for a method name that the table did not know before, that
  method is a record created by this settlement.
\<close>

theorem complete_records_every_tender:
  assumes "carts st cid = Some cart" and "lines cart \<noteq> []"
    and "writesSucceed F (length pays) (length (lines cart))"
  shows "\<exists>r. fst (complete env F st cid pays cust) = Inr r
           \<and> list_all2 (recorded (paymentMethods (snd (complete env F st cid pays cust))))
                pays (payments r)
           \<and> (\<forall>p\<in>set pays. findMethod (paymentMethods st) (methodName p) = None \<longrightarrow>
                 (\<exists>pm. findMethod (paymentMethods (snd (complete env F st cid pays cust)))
                          (methodName p) = Some pm
                       \<and> pm \<notin> set (paymentMethods st)))"
proof -
  from complete_works [OF assms, where env = env and cust = cust] obtain pms cps where
    p: "createPayments F 0 (paymentMethods st) pays [] = (pms, Some cps)" and
    c: "complete env F st cid pays cust =
         (Inr (mkReceipt env cart cust cps),
          st\<lparr>paymentMethods := pms,
             receipts := receipts st @ [mkReceipt env cart cust cps],
             stockLedger := stockLedger st @ map (stockEntry (mkReceiptNumber env)) (lines cart),
             carts := (carts st)(cid := None)\<rparr>)" by blast
  from createPayments_Some [OF p] have l: "list_all2 (recorded pms) pays cps" by simp
  have n: "\<exists>pm. findMethod pms (methodName q) = Some pm \<and> pm \<notin> set (paymentMethods st)"
    if q: "q \<in> set pays" and o: "findMethod (paymentMethods st) (methodName q) = None" for q
  proof -
    from l q obtain b where "recorded pms q b"
      by (auto simp: list_all2_conv_all_nth in_set_conv_nth)
    then obtain pm where f: "findMethod pms (methodName q) = Some pm"
      by (auto simp: recorded_def split: option.splits)
    with findMethod_None_old [OF o f] show ?thesis by blast
  qed
  from l n show ?thesis by (simp add: c mkReceipt_def)
qed

theorem complete_records_every_tender_witness:
  "\<not> isl (fst (complete clock noFaults discounted ''c1'' [tender ''bitcoin'' (- 5)] None))
   \<and> list_all2 (recorded (paymentMethods (snd (complete clock noFaults discounted ''c1''
                                                  [tender ''bitcoin'' (- 5)] None))))
        [tender ''bitcoin'' (- 5)]
        (payments (projr (fst (complete clock noFaults discounted ''c1''
                                 [tender ''bitcoin'' (- 5)] None))))"
proof -
  have n: "lines \<lparr>cart_id = ''c1'',
           lines = [\<lparr>itemId = 1, quantity = 1, unitPrice = 120, discount = 12,
                     taxRateId = Some 2, taxAmount = 6, lineTotal = 114,
                     name = ''Basmati Rice 1kg''\<rparr>]\<rparr> \<noteq> []" by simp
  from complete_records_every_tender [OF discounted_cart n noFaults_writesSucceed,
      where pays = "[tender ''bitcoin'' (- 5)]" and env = clock and cust = None]
  show ?thesis by auto
qed

theorem stock_entry_of_negative_line_counterexample:
  "map_option (\<lambda>c. map quantity (lines c)) (carts negativeScan ''c1'') = Some [- 2]
   \<and> \<not> isl (fst (complete clock noFaults negativeScan ''c1'' [] None))
   \<and> map sl_quantity (stockLedger (snd (complete clock noFaults negativeScan ''c1'' [] None)))
       = [- 2]"
  by code_simp

lemma posted_stockEntry: "posted ref l (stockEntry ref l)"
  by (simp add: posted_def stockEntry_def)

text \<open>
  Claim C9, as the code has it. After a settlement that answered with a receipt, the cart
  is no longer in the registry, and adding, updating, removing, discounting and settling
  under its identifier all answer "Cart not found" and change nothing. The settlement
  has appended to the stock ledger exactly one entry per line of the cart, in order, each
  with the item of the line, the type \<^verbatim>\<open>SALE\<close>, the receipt number as reference and the
  quantity \<open>- \<bar>quantity\<bar>\<close>, which is the negation of the line's quantity when that quantity
  is not negative.
\<close>

theorem settled_cart_is_gone_and_stock_is_posted:
  assumes "carts st cid = Some cart"
    and "complete env F st cid pays cust = (Inr r, st')"
  shows "carts st' cid = None
         \<and> add st' cid iid bc qty = (Inl CartNotFound, st')
         \<and> updateLine rf st' cid idx q p d = (Inl CartNotFound, st')
         \<and> removeLine st' cid idx = (Inl CartNotFound, st')
         \<and> applyDiscount st' cid pct = (Inl CartNotFound, st')
         \<and> complete env' F' st' cid pays' cust' = (Inl CartNotFound, st')
         \<and> length (stockLedger st') = length (stockLedger st) + length (lines cart)
         \<and> list_all2 (posted (receiptNumber r)) (lines cart)
              (drop (length (stockLedger st)) (stockLedger st'))
         \<and> take (length (stockLedger st)) (stockLedger st') = stockLedger st
         \<and> (\<forall>i<length (lines cart). 0 \<le> quantity (lines cart ! i) \<longrightarrow>
               sl_quantity (stockLedger st' ! (length (stockLedger st) + i))
                 = - quantity (lines cart ! i))"
proof -
  from complete_Inr [OF assms] obtain pms cps where
    r: "r = mkReceipt env cart cust cps"
    and st': "st' = st\<lparr>paymentMethods := pms,
             receipts := receipts st @ [mkReceipt env cart cust cps],
             stockLedger := stockLedger st @ map (stockEntry (mkReceiptNumber env)) (lines cart),
             carts := (carts st)(cid := None)\<rparr>" by blast
  have g: "carts st' cid = None" by (simp add: st')
  have l: "stockLedger st' = stockLedger st @ map (stockEntry (receiptNumber r)) (lines cart)"
    by (simp add: st' r)
  have a: "list_all2 (posted (receiptNumber r)) (lines cart)
              (map (stockEntry (receiptNumber r)) (lines cart))"
    by (simp add: list_all2_conv_all_nth posted_stockEntry)
  have b: "sl_quantity (stockLedger st' ! (length (stockLedger st) + i)) = - quantity (lines cart ! i)"
    if "i < length (lines cart)" and "0 \<le> quantity (lines cart ! i)" for i
    using that by (simp add: l nth_append stockEntry_def)
  show ?thesis
    using g a b
    by (simp add: add_def updateLine_def removeLine_def applyDiscount_def complete_def l)
qed

theorem settled_cart_is_gone_and_stock_is_posted_witness:
  "carts (snd (complete clock noFaults twoLines ''c1'' [tender ''UPI'' 183, tender ''CASH'' 183] None))
     ''c1'' = None
   \<and> fst (add (snd (complete clock noFaults twoLines ''c1''
                      [tender ''UPI'' 183, tender ''CASH'' 183] None))
            ''c1'' (Some 1) None QtyAbsent) = Inl CartNotFound
   \<and> list_all2 (posted ''R170000000000042'')
        [\<lparr>itemId = 1, quantity = 1, unitPrice = 120, discount = 12,
                     taxRateId = Some 2, taxAmount = 6, lineTotal = 114,
                     name = ''Basmati Rice 1kg''\<rparr>,
                    \<lparr>itemId = 1, quantity = 2, unitPrice = 120, discount = 0,
                     taxRateId = Some 2, taxAmount = 12, lineTotal = 252,
                     name = ''Basmati Rice 1kg''\<rparr>]
        (stockLedger (snd (complete clock noFaults twoLines ''c1''
                             [tender ''UPI'' 183, tender ''CASH'' 183] None)))"
proof -
  let ?x = "complete clock noFaults twoLines ''c1'' [tender ''UPI'' 183, tender ''CASH'' 183] None"
  have s: "\<not> isl (fst ?x)" by code_simp
  have n: "receiptNumber (projr (fst ?x)) = ''R170000000000042''" by code_simp
  have e: "stockLedger twoLines = []" by code_simp
  from s have "?x = (Inr (projr (fst ?x)), snd ?x)"
    by (metis prod.collapse sum.collapse(2))
  from settled_cart_is_gone_and_stock_is_posted [OF twoLines_cart this,
      where iid = "Some 1" and bc = None and qty = QtyAbsent] n e
  show ?thesis by simp
qed

subsection \<open>Discounts and tax\<close>

text \<open>
  Claim C3. On the cart with the one line of rice (unit price 120, quantity 1, tax 5\%,
  hence tax 6 and total 126) a cart discount of 10\% sets the discount to 12 and leaves
  the tax at 6, so the total becomes 114; the claim expects the tax 5.40 and the total
  113.40. The discount handler never touches \<open>taxAmount\<close>, for any line and any
  percentage. The handler \<^verbatim>\<open>updateLine\<close>, given the same discount of 12 on the same line
  and an answer to its tax read, does compute the tax on the discounted base: 27/5 = 5.40
  and 567/5 = 113.40.
\<close>

theorem applyDiscount_keeps_the_old_tax:
  "taxAmount (discountLine pct l) = taxAmount l
   \<and> fst (applyDiscount scanned ''c1'' (Some 10)) =
       Inr \<lparr>cart_id = ''c1'',
            lines = [\<lparr>itemId = 1, quantity = 1, unitPrice = 120, discount = 12,
                      taxRateId = Some 2, taxAmount = 6, lineTotal = 114,
                      name = ''Basmati Rice 1kg''\<rparr>]\<rparr>
   \<and> fst (updateLine False scanned ''c1'' (Fin 0) None None (Some 12)) =
       Inr \<lparr>cart_id = ''c1'',
            lines = [\<lparr>itemId = 1, quantity = 1, unitPrice = 120, discount = 12,
                      taxRateId = Some 2, taxAmount = 27 / 5, lineTotal = 567 / 5,
                      name = ''Basmati Rice 1kg''\<rparr>]\<rparr>"
proof -
  have a: "taxAmount (discountLine pct l) = taxAmount l"
    by (simp add: discountLine_def Let_def)
  have b: "fst (applyDiscount scanned ''c1'' (Some 10)) =
       Inr \<lparr>cart_id = ''c1'',
            lines = [\<lparr>itemId = 1, quantity = 1, unitPrice = 120, discount = 12,
                      taxRateId = Some 2, taxAmount = 6, lineTotal = 114,
                      name = ''Basmati Rice 1kg''\<rparr>]\<rparr>"
    by code_simp
  have c: "fst (updateLine False scanned ''c1'' (Fin 0) None None (Some 12)) =
       Inr \<lparr>cart_id = ''c1'',
            lines = [\<lparr>itemId = 1, quantity = 1, unitPrice = 120, discount = 12,
                      taxRateId = Some 2, taxAmount = 27 / 5, lineTotal = 567 / 5,
                      name = ''Basmati Rice 1kg''\<rparr>]\<rparr>"
    by code_simp
  from a b c show ?thesis by simp
qed

theorem applyDiscount_out_of_range_counterexample:
  "fst (applyDiscount scanned ''c1'' (Some 150)) =
       Inr \<lparr>cart_id = ''c1'',
            lines = [\<lparr>itemId = 1, quantity = 1, unitPrice = 120, discount = 180,
                      taxRateId = Some 2, taxAmount = 6, lineTotal = - 54,
                      name = ''Basmati Rice 1kg''\<rparr>]\<rparr>
   \<and> fst (applyDiscount scanned ''c1'' (Some (- 10))) =
       Inr \<lparr>cart_id = ''c1'',
            lines = [\<lparr>itemId = 1, quantity = 1, unitPrice = 120, discount = - 12,
                      taxRateId = Some 2, taxAmount = 6, lineTotal = 138,
                      name = ''Basmati Rice 1kg''\<rparr>]\<rparr>"
  by code_simp

text \<open>
  Claim C4, as the code has it. The discount handler checks nothing but the cart: for
  every cart of the registry and every percentage, inside or outside of the interval from
  0 to 100, it answers with the cart in which every line has the discount
  \<open>unitPrice * quantity * percent / 100\<close> and the total
  \<open>unitPrice * quantity - discount + taxAmount\<close>, with quantity, unit price and tax
  amount of the line as before.
\<close>

theorem applyDiscount_accepts_every_percent:
  assumes "carts st cid = Some cart"
  shows "applyDiscount st cid (Some pct) =
           (Inr (cart\<lparr>lines := map (discountLine pct) (lines cart)\<rparr>),
            st\<lparr>carts := (carts st)(cid \<mapsto> cart\<lparr>lines := map (discountLine pct) (lines cart)\<rparr>)\<rparr>)
         \<and> discount (discountLine pct l) = unitPrice l * quantity l * (pct / 100)
         \<and> lineTotal (discountLine pct l)
             = unitPrice l * quantity l - discount (discountLine pct l) + taxAmount l
         \<and> quantity (discountLine pct l) = quantity l
         \<and> unitPrice (discountLine pct l) = unitPrice l
         \<and> taxAmount (discountLine pct l) = taxAmount l"
  using assms by (simp add: applyDiscount_def discountLine_def Let_def)

theorem applyDiscount_accepts_every_percent_witness:
  "map_sum id (\<lambda>c. map discount (lines c)) (fst (applyDiscount scanned ''c1'' (Some 150)))
     = Inr [180]"
  using applyDiscount_accepts_every_percent [OF scanned_cart, of 150]
  by (simp add: discountLine_def)












end
